theory Spec2Isabelle
  imports Complex_Main "HOL-Library.Monad_Syntax" "HOL-Library.Multiset"
    "HOL-Library.Code_Target_Nat"
begin

section \<open>Data model of \<open>mem_pool.c\<close>\<close>

text \<open>
  The allocator keeps, for every pool, a manager record with an arena of segment records
  (\<open>node_heap\<close>), linked into a doubly-linked list through \<open>next\<close>/\<open>prev\<close>, and
  a gap index (\<open>gap_ix\<close>). The program stores raw pointers to arena records, in
  \<open>next\<close>, \<open>prev\<close>, the gap index and the handles it gives to its client. A pointer
  to an arena record is an address: \<open>Node a\<close> is the address \<open>a\<close>, counted in records
  from the place of the array that \<open>calloc\<close> returns when the pool is opened, and
  \<open>NULL\<close> is the null pointer. The program compares such pointers for equality only, so
  nothing depends on the origin of the count. Addresses inside the region
  (\<open>char *mem\<close>) are natural numbers, \<open>0\<close> being the null pointer.

  Modelled from the spec: the header \<open>mem_pool.h\<close> is not among the sources. The types
  \<open>alloc_policy\<close>, \<open>alloc_status\<close>, \<open>alloc_t\<close> and \<open>pool_t\<close> are rebuilt from the
  fields and constants that \<open>mem_pool.c\<close> reads and writes and from section 3 of the
  specification (pool counters \<open>total_size\<close>, \<open>alloc_size\<close>, \<open>num_allocs\<close>,
  \<open>num_gaps\<close>, plus policy).
\<close>

datatype alloc_policy = FIRST_FIT | BEST_FIT

datatype alloc_status = ALLOC_OK | ALLOC_FAIL | ALLOC_CALLED_AGAIN | ALLOC_NOT_FREED

datatype node_pt = NULL | Node nat

record alloc_t =
  rec_size :: nat
  rec_mem :: nat

record node_t =
  alloc_record :: alloc_t
  used :: nat
  allocated :: nat
  next_n :: node_pt
  prev_n :: node_pt

record gap_t =
  gap_size :: nat
  gap_node :: node_pt

record pool_t =
  pool_mem :: nat
  policy :: alloc_policy
  total_size :: nat
  alloc_size :: nat
  num_allocs :: nat
  num_gaps :: nat

text \<open>
  The arrays \<open>node_heap\<close> and \<open>gap_ix\<close> are lists; the capacities
  \<open>total_nodes\<close> and \<open>gap_ix_capacity\<close>, which the C code stores beside the arrays
  and only changes together with a \<open>realloc\<close> of the array, are the lengths of the lists.
  The field \<open>node_heap\<close> of the C structure is a pointer: \<open>heap_at\<close> is its value,
  the address of \<open>node_heap[0]\<close>, and \<open>node_heap\<close> the contents of the array it
  points to, so that \<open>&node_heap[i]\<close> is \<open>Node (heap_at + i)\<close>. No pointer into the
  gap index is kept beyond a statement, so the gap index needs no address.
\<close>

record pool_mgr_t =
  pool :: pool_t
  heap_at :: nat
  node_heap :: "node_t list"
  used_nodes :: nat
  gap_ix :: "gap_t list"

definition total_nodes :: "pool_mgr_t \<Rightarrow> nat" where
  "total_nodes pm = length (node_heap pm)"

definition gap_ix_capacity :: "pool_mgr_t \<Rightarrow> nat" where
  "gap_ix_capacity pm = length (gap_ix pm)"

text \<open>The arena as the functions below see it: the address of the array and its contents.\<close>

definition arena :: "pool_mgr_t \<Rightarrow> nat \<times> node_t list" where
  "arena pm = (heap_at pm, node_heap pm)"

subsection \<open>Machine arithmetic\<close>

text \<open>
  \<open>unsigned\<close> counters are 32 bits wide and \<open>size_t\<close> values 64 bits; both wrap
  around. The wrap-around is written out.
\<close>

definition u32 :: "nat \<Rightarrow> nat" where
  "u32 n = n mod 4294967296"

definition u64 :: "nat \<Rightarrow> nat" where
  "u64 n = n mod 18446744073709551616"

definition u32_dec :: "nat \<Rightarrow> nat" where
  "u32_dec n = (if n = 0 then 4294967295 else n - 1)"

definition u64_sub :: "nat \<Rightarrow> nat \<Rightarrow> nat" where
  "u64_sub a b = (if b \<le> a then a - b else a + 18446744073709551616 - b)"

subsection \<open>Constants\<close>

definition MEM_FILL_FACTOR :: real where
  "MEM_FILL_FACTOR = 0.75"

definition MEM_EXPAND_FACTOR :: nat where
  "MEM_EXPAND_FACTOR = 2"

definition MEM_POOL_STORE_INIT_CAPACITY :: nat where
  "MEM_POOL_STORE_INIT_CAPACITY = 20"

definition MEM_POOL_STORE_FILL_FACTOR :: real where
  "MEM_POOL_STORE_FILL_FACTOR = 0.75"

definition MEM_POOL_STORE_EXPAND_FACTOR :: nat where
  "MEM_POOL_STORE_EXPAND_FACTOR = 2"

definition MEM_NODE_HEAP_INIT_CAPACITY :: nat where
  "MEM_NODE_HEAP_INIT_CAPACITY = 40"

definition MEM_NODE_HEAP_FILL_FACTOR :: real where
  "MEM_NODE_HEAP_FILL_FACTOR = 0.75"

definition MEM_NODE_HEAP_EXPAND_FACTOR :: nat where
  "MEM_NODE_HEAP_EXPAND_FACTOR = 2"

definition MEM_GAP_IX_INIT_CAPACITY :: nat where
  "MEM_GAP_IX_INIT_CAPACITY = 40"

definition MEM_GAP_IX_FILL_FACTOR :: real where
  "MEM_GAP_IX_FILL_FACTOR = 0.75"

definition MEM_GAP_IX_EXPAND_FACTOR :: nat where
  "MEM_GAP_IX_EXPAND_FACTOR = 2"

subsection \<open>Memory that the program does not initialise\<close>

text \<open>
  Two kinds of memory reads return contents that \<open>mem_pool.c\<close> never wrote: the cells
  that \<open>realloc\<close> adds behind the old contents of an array, and the cell directly
  behind the gap index, which the shift loop of \<open>_mem_remove_from_gap_ix\<close> reads in
  its last iteration. These contents are an explicit argument of every operation, so
  that a theorem about an operation holds whatever they are. \<open>realloc\<close> is taken to
  succeed. It may extend the array where it is or move it: \<open>node_heap_to a\<close> is the
  address that \<open>realloc\<close> returns for the node heap at address \<open>a\<close>. When the array
  moves, the old block is freed, and the pointers to its records that the program has
  stored keep their value and point into the freed block.
\<close>

record env =
  past_gap :: gap_t
  node_heap_to :: "nat \<Rightarrow> nat"
  fresh_node :: "nat \<Rightarrow> node_t"
  fresh_gap :: "nat \<Rightarrow> gap_t"
  fresh_slot :: "nat \<Rightarrow> nat option"

definition realloc_arr :: "(nat \<Rightarrow> 'a) \<Rightarrow> 'a list \<Rightarrow> nat \<Rightarrow> 'a list" where
  "realloc_arr fresh xs n = take n xs @ map fresh [length xs ..< n]"

definition zero_node :: node_t where
  "zero_node = \<lparr>alloc_record = \<lparr>rec_size = 0, rec_mem = 0\<rparr>, used = 0, allocated = 0,
     next_n = NULL, prev_n = NULL\<rparr>"

definition zero_gap :: gap_t where
  "zero_gap = \<lparr>gap_size = 0, gap_node = NULL\<rparr>"

text \<open>
  The environment in which all memory not written by the program holds zero bytes and
  \<open>realloc\<close> extends the node heap where it is.
\<close>

definition zero_env :: env where
  "zero_env = \<lparr>past_gap = zero_gap, node_heap_to = (\<lambda>a. a), fresh_node = (\<lambda>_. zero_node),
     fresh_gap = (\<lambda>_. zero_gap), fresh_slot = (\<lambda>_. None)\<rparr>"

subsection \<open>Access through record pointers\<close>

text \<open>
  Reading or writing through a null pointer, or through a pointer that is not the address
  of a record of the array (a pointer into a block that \<open>realloc\<close> has freed, for
  one), has no defined result in C. Every operation returns an \<open>option\<close>: the
  value \<open>None\<close> says that the run performed such an access (or a division by zero, or
  a write outside an array) and has no result. \<open>slot h p\<close> is the position in the array
  of the record that \<open>p\<close> points to.
\<close>

definition slot :: "nat \<times> node_t list \<Rightarrow> node_pt \<Rightarrow> nat option" where
  "slot h p = (case p of NULL \<Rightarrow> None
     | Node a \<Rightarrow> if fst h \<le> a \<and> a - fst h < length (snd h) then Some (a - fst h) else None)"

definition node_at :: "nat \<times> node_t list \<Rightarrow> node_pt \<Rightarrow> node_t option" where
  "node_at h p = map_option (\<lambda>i. snd h ! i) (slot h p)"

definition rd :: "pool_mgr_t \<Rightarrow> node_pt \<Rightarrow> node_t option" where
  "rd pm p = node_at (arena pm) p"

definition wr :: "node_pt \<Rightarrow> (node_t \<Rightarrow> node_t) \<Rightarrow> pool_mgr_t \<Rightarrow> pool_mgr_t option" where
  "wr p f pm = (case slot (arena pm) p of None \<Rightarrow> None
     | Some i \<Rightarrow> Some (pm\<lparr>node_heap := (node_heap pm)[i := f (node_heap pm ! i)]\<rparr>))"

definition set_size :: "nat \<Rightarrow> node_t \<Rightarrow> node_t" where
  "set_size v n = n\<lparr>alloc_record := (alloc_record n)\<lparr>rec_size := v\<rparr>\<rparr>"

definition set_mem :: "nat \<Rightarrow> node_t \<Rightarrow> node_t" where
  "set_mem v n = n\<lparr>alloc_record := (alloc_record n)\<lparr>rec_mem := v\<rparr>\<rparr>"

definition set_used :: "nat \<Rightarrow> node_t \<Rightarrow> node_t" where
  "set_used v n = n\<lparr>used := v\<rparr>"

definition set_allocated :: "nat \<Rightarrow> node_t \<Rightarrow> node_t" where
  "set_allocated v n = n\<lparr>allocated := v\<rparr>"

definition set_next :: "node_pt \<Rightarrow> node_t \<Rightarrow> node_t" where
  "set_next v n = n\<lparr>next_n := v\<rparr>"

definition set_prev :: "node_pt \<Rightarrow> node_t \<Rightarrow> node_t" where
  "set_prev v n = n\<lparr>prev_n := v\<rparr>"

definition node_size :: "node_t \<Rightarrow> nat" where
  "node_size n = rec_size (alloc_record n)"

definition node_mem :: "node_t \<Rightarrow> nat" where
  "node_mem n = rec_mem (alloc_record n)"

section \<open>The static functions\<close>

subsection \<open>\<open>_mem_resize_node_heap\<close> and \<open>_mem_resize_gap_ix\<close>\<close>

text \<open>
  \<open>float used_nodes_percent = pool_mgr->used_nodes / pool_mgr->total_nodes;\<close> divides
  two \<open>unsigned\<close> values, so the quotient is truncated before it is converted to
  \<open>float\<close>. The conversion keeps the order of the quotients \<open>0\<close> and \<open>1\<close> around
  \<open>0.75\<close>, so the quotient is compared as a real number. Both functions always return
  \<open>ALLOC_OK\<close>, which no caller reads; the model returns the manager only. A new
  capacity that wraps around to \<open>0\<close> makes \<open>realloc\<close> free the array; the run then
  has no result. \<open>_mem_resize_node_heap\<close> stores the pointer that \<open>realloc\<close> returns
  and the new capacity, and nothing else: the pointers in \<open>next\<close>, \<open>prev\<close> and the gap
  index are copied as they are.
\<close>

definition mem_resize_node_heap :: "env \<Rightarrow> pool_mgr_t \<Rightarrow> pool_mgr_t option" where
  "mem_resize_node_heap e pm =
     (if total_nodes pm = 0 then None
      else
        let used_nodes_percent = real (used_nodes pm div total_nodes pm) in
        if used_nodes_percent > MEM_NODE_HEAP_FILL_FACTOR then
          (let new_cap = u32 (MEM_NODE_HEAP_EXPAND_FACTOR * total_nodes pm) in
           if new_cap = 0 then None
           else Some (pm\<lparr>heap_at := node_heap_to e (heap_at pm),
                          node_heap := realloc_arr (fresh_node e) (node_heap pm) new_cap\<rparr>))
        else Some pm)"

definition mem_resize_gap_ix :: "env \<Rightarrow> pool_mgr_t \<Rightarrow> pool_mgr_t option" where
  "mem_resize_gap_ix e pm =
     (if gap_ix_capacity pm = 0 then None
      else
        let gaps_active_percent = real (num_gaps (pool pm) div gap_ix_capacity pm) in
        if gaps_active_percent > MEM_GAP_IX_FILL_FACTOR then
          (let new_cap = u32 (MEM_GAP_IX_EXPAND_FACTOR * gap_ix_capacity pm) in
           if new_cap = 0 then None
           else Some (pm\<lparr>gap_ix := realloc_arr (fresh_gap e) (gap_ix pm) new_cap\<rparr>))
        else Some pm)"

subsection \<open>\<open>_mem_sort_gap_ix\<close>\<close>

definition swap_gaps :: "gap_t list \<Rightarrow> nat \<Rightarrow> gap_t list" where
  "swap_gaps g i = g[i := g ! (i - 1), i - 1 := g ! i]"

text \<open>
  The loop \<open>for (int i = num_gaps - 1; i > 0; i--)\<close>: one pass from the last entry
  down to entry 1, swapping entry \<open>i\<close> with entry \<open>i - 1\<close> when it is smaller, or
  equal in size and lower in address. The pass does not stop at the first pair in order.
\<close>

function sort_loop :: "nat \<times> node_t list \<Rightarrow> gap_t list \<Rightarrow> nat \<Rightarrow> gap_t list option" where
  "sort_loop h g i =
     (if 0 < i then
        (if i < length g then
           (if gap_size (g ! i) < gap_size (g ! (i - 1)) then sort_loop h (swap_gaps g i) (i - 1)
            else if gap_size (g ! i) = gap_size (g ! (i - 1)) then
              (case node_at h (gap_node (g ! i)) of
                 None \<Rightarrow> None
               | Some ni \<Rightarrow>
                  (case node_at h (gap_node (g ! (i - 1))) of
                     None \<Rightarrow> None
                   | Some np \<Rightarrow>
                       if node_mem ni < node_mem np then sort_loop h (swap_gaps g i) (i - 1)
                       else sort_loop h g (i - 1)))
            else sort_loop h g (i - 1))
         else None)
      else Some g)"
  by pat_completeness auto
termination
  by (relation "measure (\<lambda>(h, g, i). i)") auto

declare sort_loop.simps [simp del]

text \<open>
  The start value \<open>num_gaps - 1\<close> is an \<open>unsigned\<close> converted to \<open>int\<close>: from
  \<open>2^31\<close> on it is negative and the loop body never runs.
\<close>

definition mem_sort_gap_ix :: "pool_mgr_t \<Rightarrow> (alloc_status \<times> pool_mgr_t) option" where
  "mem_sort_gap_ix pm =
     (let i = u32_dec (num_gaps (pool pm)) in
      if 2147483648 \<le> i then Some (ALLOC_OK, pm)
      else
        (case sort_loop (arena pm) (gap_ix pm) i of
           None \<Rightarrow> None
         | Some g \<Rightarrow> Some (ALLOC_OK, pm\<lparr>gap_ix := g\<rparr>)))"

subsection \<open>\<open>_mem_add_to_gap_ix\<close>\<close>

definition mem_add_to_gap_ix ::
    "env \<Rightarrow> pool_mgr_t \<Rightarrow> nat \<Rightarrow> node_pt \<Rightarrow> (alloc_status \<times> pool_mgr_t) option" where
  "mem_add_to_gap_ix e pm0 sz node =
     (case mem_resize_gap_ix e pm0 of
        None \<Rightarrow> None
      | Some pm \<Rightarrow>
          if num_gaps (pool pm) < gap_ix_capacity pm then
            (let pm1 = pm\<lparr>gap_ix := (gap_ix pm)[num_gaps (pool pm) :=
                              \<lparr>gap_size = sz, gap_node = node\<rparr>]\<rparr>;
                 pm2 = pm1\<lparr>pool := (pool pm1)\<lparr>num_gaps := u32 (num_gaps (pool pm1) + 1)\<rparr>\<rparr>
             in case mem_sort_gap_ix pm2 of
                  None \<Rightarrow> None
                | Some (stat, pm3) \<Rightarrow>
                    if stat = ALLOC_OK then Some (ALLOC_OK, pm3) else Some (ALLOC_FAIL, pm3))
          else None)"

subsection \<open>\<open>_mem_remove_from_gap_ix\<close>\<close>

text \<open>The search loop; \<open>None\<close> is \<open>pos = -1\<close>.\<close>

function gap_find :: "gap_t list \<Rightarrow> node_pt \<Rightarrow> nat \<Rightarrow> nat option" where
  "gap_find g node i =
     (if i < length g then
        (if gap_node (g ! i) = node then Some i else gap_find g node (Suc i))
      else None)"
  by pat_completeness auto
termination
  by (relation "measure (\<lambda>(g, node, i). length g - i)") auto

declare gap_find.simps [simp del]

text \<open>
  The shift loop \<open>for (int j = pos; j < gap_ix_capacity; j++) gap_ix[j] = gap_ix[j + 1];\<close>.
  It runs up to \<open>j = gap_ix_capacity - 1\<close> and then reads \<open>gap_ix[gap_ix_capacity]\<close>,
  the cell behind the array, whose contents are \<open>past\<close>. \<open>gap_rd\<close> is the read of the
  loop and says which positions lie in the array.
\<close>

definition gap_rd :: "gap_t \<Rightarrow> gap_t list \<Rightarrow> nat \<Rightarrow> gap_t" where
  "gap_rd past g j = (if j < length g then g ! j else past)"

function shift_loop :: "gap_t \<Rightarrow> gap_t list \<Rightarrow> nat \<Rightarrow> gap_t list" where
  "shift_loop past g j =
     (if j < length g then shift_loop past (g[j := gap_rd past g (Suc j)]) (Suc j) else g)"
  by pat_completeness auto
termination
  by (relation "measure (\<lambda>(past, g, j). length g - j)") auto

declare shift_loop.simps [simp del]

definition mem_remove_from_gap_ix ::
    "env \<Rightarrow> pool_mgr_t \<Rightarrow> nat \<Rightarrow> node_pt \<Rightarrow> (alloc_status \<times> pool_mgr_t) option" where
  "mem_remove_from_gap_ix e pm sz node =
     (case gap_find (gap_ix pm) node 0 of
        None \<Rightarrow> Some (ALLOC_FAIL, pm)
      | Some pos \<Rightarrow>
          (let g = shift_loop (past_gap e) (gap_ix pm) pos;
               n = u32_dec (num_gaps (pool pm))
           in if n < length g then
                Some (ALLOC_OK, pm\<lparr>pool := (pool pm)\<lparr>num_gaps := n\<rparr>,
                                     gap_ix := g[n := \<lparr>gap_size = 0, gap_node = NULL\<rparr>]\<rparr>)
              else None))"

section \<open>The user-facing functions\<close>

text \<open>Reading a field through a record pointer: \<open>fld next_n pm p\<close> is \<open>p->next\<close>.\<close>

definition fld :: "(node_t \<Rightarrow> 'a) \<Rightarrow> pool_mgr_t \<Rightarrow> node_pt \<Rightarrow> 'a option" where
  "fld f pm p = map_option f (rd pm p)"

subsection \<open>\<open>mem_new_alloc\<close>\<close>

text \<open>
  The first-fit loop walks the arena by position, \<open>node_heap[0]\<close> to
  \<open>node_heap[total_nodes - 1]\<close>; \<open>a_node\<close> is set to \<open>&node_heap[i]\<close> in every
  iteration, so after a loop without a match it points to the last record of the arena.
\<close>

function first_fit_loop :: "nat \<times> node_t list \<Rightarrow> nat \<Rightarrow> nat \<Rightarrow> node_pt \<Rightarrow> node_pt" where
  "first_fit_loop h sz i a_node =
     (if i < length (snd h) then
        (if used (snd h ! i) \<noteq> 0 \<and> allocated (snd h ! i) = 0 \<and> sz \<le> node_size (snd h ! i)
         then Node (fst h + i)
         else first_fit_loop h sz (Suc i) (Node (fst h + i)))
      else a_node)"
  by pat_completeness auto
termination
  by (relation "measure (\<lambda>(h, sz, i, a_node). length (snd h) - i)") auto

declare first_fit_loop.simps [simp del]

definition first_fit :: "pool_mgr_t \<Rightarrow> nat \<Rightarrow> node_pt option" where
  "first_fit pm sz =
     (let a_node = first_fit_loop (arena pm) sz 0 NULL in
      case rd pm a_node of
        None \<Rightarrow> None
      | Some a \<Rightarrow> if node_size a < sz then Some NULL else Some a_node)"

function best_fit_loop :: "gap_t list \<Rightarrow> nat \<Rightarrow> nat \<Rightarrow> node_pt \<Rightarrow> node_pt" where
  "best_fit_loop g sz j a_node =
     (if j < length g then
        (if sz \<le> gap_size (g ! j) then gap_node (g ! j)
         else best_fit_loop g sz (Suc j) a_node)
      else a_node)"
  by pat_completeness auto
termination
  by (relation "measure (\<lambda>(g, sz, j, a_node). length g - j)") auto

declare best_fit_loop.simps [simp del]

definition best_fit :: "pool_mgr_t \<Rightarrow> nat \<Rightarrow> node_pt" where
  "best_fit pm sz = best_fit_loop (gap_ix pm) sz 0 NULL"

text \<open>Lines 216 to 238: the candidate \<open>a_node\<close> by policy.\<close>

definition select_node :: "pool_mgr_t \<Rightarrow> nat \<Rightarrow> node_pt option" where
  "select_node pm sz =
     (case policy (pool pm) of
        FIRST_FIT \<Rightarrow> first_fit pm sz
      | BEST_FIT \<Rightarrow> Some (best_fit pm sz))"

function find_unused :: "nat \<times> node_t list \<Rightarrow> nat \<Rightarrow> node_pt" where
  "find_unused h k =
     (if k < length (snd h) then
        (if used (snd h ! k) = 0 then Node (fst h + k) else find_unused h (Suc k))
      else NULL)"
  by pat_completeness auto
termination
  by (relation "measure (\<lambda>(h, k). length (snd h) - k)") auto

declare find_unused.simps [simp del]

text \<open>Lines 256 to 284: the record for the remaining gap.\<close>

definition new_alloc_residual ::
    "env \<Rightarrow> pool_mgr_t \<Rightarrow> node_pt \<Rightarrow> nat \<Rightarrow> nat \<Rightarrow> (node_pt \<times> pool_mgr_t) option" where
  "new_alloc_residual e pm0 a_node sz remaining_gap_size =
     (let unusedNode = find_unused (arena pm0) 0 in
      if unusedNode = NULL then Some (NULL, pm0)
      else do {
        pm \<leftarrow> wr unusedNode (set_size remaining_gap_size) pm0;
        m \<leftarrow> fld node_mem pm a_node;
        pm \<leftarrow> wr unusedNode (set_mem (m + sz)) pm;
        pm \<leftarrow> wr unusedNode (set_allocated 0) pm;
        pm \<leftarrow> wr unusedNode (set_used 1) pm;
        let pm = pm\<lparr>used_nodes := u32 (used_nodes pm + 1)\<rparr>;
        pm \<leftarrow> wr unusedNode (set_prev a_node) pm;
        nx \<leftarrow> fld next_n pm a_node;
        pm \<leftarrow> wr unusedNode (set_next nx) pm;
        nx \<leftarrow> fld next_n pm a_node;
        pm \<leftarrow> (if nx \<noteq> NULL then wr nx (set_prev unusedNode) pm else Some pm);
        pm \<leftarrow> wr a_node (set_next unusedNode) pm;
        r \<leftarrow> mem_add_to_gap_ix e pm remaining_gap_size unusedNode;
        Some (a_node, snd r)
      })"

text \<open>
  The result is the returned pointer (\<open>NULL\<close> or the allocation record) and the manager
  as the call leaves it.
\<close>

definition mem_new_alloc ::
    "env \<Rightarrow> pool_mgr_t \<Rightarrow> nat \<Rightarrow> (node_pt \<times> pool_mgr_t) option" where
  "mem_new_alloc e pm0 sz =
     (if num_gaps (pool pm0) = 0 then Some (NULL, pm0)
      else do {
        pm \<leftarrow> mem_resize_node_heap e pm0;
        a_node \<leftarrow> select_node pm sz;
        if a_node = NULL then Some (NULL, pm)
        else do {
          let pm = pm\<lparr>pool := (pool pm)\<lparr>num_allocs := u32 (num_allocs (pool pm) + 1)\<rparr>\<rparr>;
          let pm = pm\<lparr>pool := (pool pm)\<lparr>alloc_size := u64 (alloc_size (pool pm) + sz)\<rparr>\<rparr>;
          s \<leftarrow> fld node_size pm a_node;
          let remaining_gap_size = u64_sub s sz;
          r \<leftarrow> mem_remove_from_gap_ix e pm sz a_node;
          pm \<leftarrow> wr a_node (set_allocated 1) (snd r);
          pm \<leftarrow> wr a_node (set_size sz) pm;
          if remaining_gap_size \<noteq> 0 then new_alloc_residual e pm a_node sz remaining_gap_size
          else Some (a_node, pm)
        }
      })"

subsection \<open>\<open>mem_del_alloc\<close>\<close>

text \<open>Lines 302 to 324: the next record in the list is a gap and is merged into the record to delete.\<close>

definition del_forward :: "env \<Rightarrow> pool_mgr_t \<Rightarrow> node_pt \<Rightarrow> pool_mgr_t option" where
  "del_forward e pm0 deleteNode =
     do {
       nx \<leftarrow> fld next_n pm0 deleteNode;
       if nx = NULL then Some pm0
       else do {
         a \<leftarrow> fld allocated pm0 nx;
         if a \<noteq> 0 then Some pm0
         else do {
           s \<leftarrow> fld node_size pm0 nx;
           r \<leftarrow> mem_remove_from_gap_ix e pm0 s nx;
           let pm = snd r;
           nx \<leftarrow> fld next_n pm deleteNode;
           s \<leftarrow> fld node_size pm nx;
           d \<leftarrow> fld node_size pm deleteNode;
           pm \<leftarrow> wr deleteNode (set_size (u64 (d + s))) pm;
           nx \<leftarrow> fld next_n pm deleteNode;
           pm \<leftarrow> wr nx (set_used 0) pm;
           nx \<leftarrow> fld next_n pm deleteNode;
           pm \<leftarrow> wr nx (set_size 0) pm;
           nx \<leftarrow> fld next_n pm deleteNode;
           pm \<leftarrow> wr nx (set_mem 0) pm;
           let pm = pm\<lparr>used_nodes := u32_dec (used_nodes pm)\<rparr>;
           nx \<leftarrow> fld next_n pm deleteNode;
           nn \<leftarrow> fld next_n pm nx;
           if nn \<noteq> NULL then do {
             pm \<leftarrow> wr nn (set_prev deleteNode) pm;
             nx \<leftarrow> fld next_n pm deleteNode;
             nn \<leftarrow> fld next_n pm nx;
             wr deleteNode (set_next nn) pm
           }
           else do {
             pm \<leftarrow> wr nx (set_prev NULL) pm;
             wr deleteNode (set_next NULL) pm
           }
         }
       }
     }"

text \<open>
  Lines 328 to 360: the previous record in the list is a gap and the record to delete is
  merged into it. The result is the status of the early return (\<open>ALLOC_FAIL\<close>) or
  \<open>ALLOC_OK\<close> to go on, the manager, and the record that is to be added to the gap
  index.
\<close>

definition del_backward ::
    "env \<Rightarrow> pool_mgr_t \<Rightarrow> node_pt \<Rightarrow> (alloc_status \<times> pool_mgr_t \<times> node_pt) option" where
  "del_backward e pm0 deleteNode =
     do {
       pv \<leftarrow> fld prev_n pm0 deleteNode;
       if pv = NULL then Some (ALLOC_OK, pm0, deleteNode)
       else do {
         a \<leftarrow> fld allocated pm0 pv;
         if a \<noteq> 0 then Some (ALLOC_OK, pm0, deleteNode)
         else do {
           let prev_node = pv;
           s \<leftarrow> fld node_size pm0 prev_node;
           r \<leftarrow> mem_remove_from_gap_ix e pm0 s prev_node;
           if fst r = ALLOC_FAIL then Some (ALLOC_FAIL, snd r, deleteNode)
           else do {
             let pm = snd r;
             s \<leftarrow> fld node_size pm prev_node;
             d \<leftarrow> fld node_size pm deleteNode;
             pm \<leftarrow> wr prev_node (set_size (u64 (s + d))) pm;
             pm \<leftarrow> wr deleteNode (set_used 0) pm;
             pm \<leftarrow> wr deleteNode (set_size 0) pm;
             pm \<leftarrow> wr deleteNode (set_mem 0) pm;
             let pm = pm\<lparr>used_nodes := u32_dec (used_nodes pm)\<rparr>;
             nx \<leftarrow> fld next_n pm deleteNode;
             pm \<leftarrow> (if nx \<noteq> NULL then do {
                      pm \<leftarrow> wr prev_node (set_next nx) pm;
                      nx \<leftarrow> fld next_n pm deleteNode;
                      wr nx (set_prev prev_node) pm
                    }
                    else wr prev_node (set_next NULL) pm);
             pm \<leftarrow> wr deleteNode (set_next NULL) pm;
             pm \<leftarrow> wr deleteNode (set_prev NULL) pm;
             Some (ALLOC_OK, pm, prev_node)
           }
         }
       }
     }"

text \<open>
  The handle \<open>alloc\<close> is the pointer that \<open>mem_new_alloc\<close> returned; it points to
  the allocation record at the start of an arena record. The function does not look at
  \<open>used\<close> or \<open>allocated\<close> of the record before it changes it.
\<close>

definition mem_del_alloc ::
    "env \<Rightarrow> pool_mgr_t \<Rightarrow> node_pt \<Rightarrow> (alloc_status \<times> pool_mgr_t) option" where
  "mem_del_alloc e pm0 alloc =
     do {
       let deleteNode = alloc;
       pm \<leftarrow> wr deleteNode (set_allocated 0) pm0;
       let pm = pm\<lparr>pool := (pool pm)\<lparr>num_allocs := u32_dec (num_allocs (pool pm))\<rparr>\<rparr>;
       s \<leftarrow> fld node_size pm alloc;
       let pm = pm\<lparr>pool := (pool pm)\<lparr>alloc_size := u64_sub (alloc_size (pool pm)) s\<rparr>\<rparr>;
       pm \<leftarrow> del_forward e pm deleteNode;
       b \<leftarrow> del_backward e pm deleteNode;
       if fst b = ALLOC_FAIL then Some (ALLOC_FAIL, fst (snd b))
       else do {
         let pm = fst (snd b);
         let deleteNode = snd (snd b);
         s \<leftarrow> fld node_size pm deleteNode;
         mem_add_to_gap_ix e pm s deleteNode
       }
     }"

subsection \<open>\<open>mem_inspect_pool\<close>\<close>

record pool_segment_t =
  seg_size :: nat
  seg_allocated :: nat

text \<open>
  The walk starts at \<open>pool_mgr->node_heap\<close>, that is at arena record 0, and follows
  \<open>next\<close>. The array \<open>sgmts\<close> has \<open>used_nodes\<close> cells; a walk that is longer writes
  behind it and has no result, and so does a walk that meets a pointer that is not the
  address of a record of the array.
\<close>

function inspect_loop ::
    "nat \<times> node_t list \<Rightarrow> node_pt \<Rightarrow> nat \<Rightarrow> pool_segment_t list \<Rightarrow>
     pool_segment_t list option" where
  "inspect_loop h thisNode i sgmts =
     (if thisNode = NULL then Some sgmts
      else
        (case node_at h thisNode of
           None \<Rightarrow> None
         | Some n \<Rightarrow>
             if i < length sgmts then
               inspect_loop h (next_n n) (Suc i)
                 (sgmts[i := \<lparr>seg_size = node_size n, seg_allocated = allocated n\<rparr>])
             else None))"
  by pat_completeness auto
termination
  by (relation "measure (\<lambda>(h, thisNode, i, sgmts). length sgmts - i)") auto

declare inspect_loop.simps [simp del]

text \<open>The result is the pair of the two output arguments, \<open>*segments\<close> and \<open>*num_segments\<close>.\<close>

definition mem_inspect_pool :: "pool_mgr_t \<Rightarrow> (pool_segment_t list \<times> nat) option" where
  "mem_inspect_pool pm =
     (let sgmts = replicate (used_nodes pm) \<lparr>seg_size = 0, seg_allocated = 0\<rparr> in
      case inspect_loop (arena pm) (Node (heap_at pm)) 0 sgmts of
        None \<Rightarrow> None
      | Some sg \<Rightarrow> Some (sg, used_nodes pm))"

subsection \<open>The pool store: \<open>mem_init\<close>, \<open>mem_free\<close>, \<open>mem_pool_open\<close>, \<open>mem_pool_close\<close>\<close>

text \<open>
  The static variables and the managers obtained from \<open>malloc\<close>. A pool pointer
  (\<open>pool_pt\<close>, \<open>pool_mgr_pt\<close>) is the address of a manager, \<open>None\<close> the null
  pointer; \<open>mgrs\<close> maps the address of every manager that is allocated and not freed
  to its contents, which include its region, node heap and gap index.
  \<open>pool_store_capacity\<close> is the length of the array \<open>pool_store\<close>, and \<open>0\<close> while
  \<open>pool_store\<close> is the null pointer.
\<close>

record store =
  pool_store :: "nat option list option"
  pool_store_size :: nat
  mgrs :: "nat \<Rightarrow> pool_mgr_t option"

definition pool_store_capacity :: "store \<Rightarrow> nat" where
  "pool_store_capacity st = (case pool_store st of None \<Rightarrow> 0 | Some a \<Rightarrow> length a)"

definition mem_init :: "store \<Rightarrow> alloc_status \<times> store" where
  "mem_init st =
     (if pool_store st \<noteq> None then (ALLOC_CALLED_AGAIN, st)
      else (ALLOC_OK, st\<lparr>pool_store := Some (replicate MEM_POOL_STORE_INIT_CAPACITY None),
                           pool_store_size := 0\<rparr>))"

function free_loop :: "nat option list \<Rightarrow> nat \<Rightarrow> nat \<Rightarrow> bool option" where
  "free_loop a n i =
     (if i < n then
        (if i < length a then (if a ! i \<noteq> None then Some False else free_loop a n (Suc i))
         else None)
      else Some True)"
  by pat_completeness auto
termination
  by (relation "measure (\<lambda>(a, n, i). n - i)") auto

declare free_loop.simps [simp del]

definition mem_free :: "store \<Rightarrow> (alloc_status \<times> store) option" where
  "mem_free st =
     (case pool_store st of
        None \<Rightarrow> Some (ALLOC_CALLED_AGAIN, st)
      | Some a \<Rightarrow>
          (case free_loop a (pool_store_size st) 0 of
             None \<Rightarrow> None
           | Some False \<Rightarrow> Some (ALLOC_FAIL, st)
           | Some True \<Rightarrow> Some (ALLOC_OK, st\<lparr>pool_store := None, pool_store_size := 0\<rparr>)))"

definition mem_resize_pool_store :: "env \<Rightarrow> store \<Rightarrow> store option" where
  "mem_resize_pool_store e st =
     (case pool_store st of
        None \<Rightarrow> None
      | Some a \<Rightarrow>
          if length a = 0 then None
          else
            let used_size_percent = real (pool_store_size st div pool_store_capacity st) in
            if used_size_percent > MEM_POOL_STORE_FILL_FACTOR then
              (let new_cap = u32 (MEM_POOL_STORE_EXPAND_FACTOR * pool_store_capacity st) in
               if new_cap = 0 then None
               else Some (st\<lparr>pool_store := Some (realloc_arr (fresh_slot e) a new_cap)\<rparr>))
            else Some st)"

text \<open>
  Lines 135 to 162 of \<open>mem_pool_open\<close>: the manager of a new pool. \<open>calloc\<close> clears
  both arrays; record 0 becomes the gap that covers the region, entry 0 of the gap index
  refers to it. The node heap lies at the origin of the count of record addresses.
\<close>

definition mem_pool_open_mgr :: "nat \<Rightarrow> nat \<Rightarrow> alloc_policy \<Rightarrow> pool_mgr_t" where
  "mem_pool_open_mgr region sz pol =
     \<lparr>pool = \<lparr>pool_mem = region, policy = pol, total_size = sz, alloc_size = 0,
              num_allocs = 0, num_gaps = 1\<rparr>,
      heap_at = 0,
      node_heap = (replicate MEM_NODE_HEAP_INIT_CAPACITY zero_node)
          [0 := \<lparr>alloc_record = \<lparr>rec_size = sz, rec_mem = region\<rparr>, used = 1, allocated = 0,
                 next_n = NULL, prev_n = NULL\<rparr>],
      used_nodes = 1,
      gap_ix = (replicate MEM_GAP_IX_INIT_CAPACITY zero_gap)
          [0 := \<lparr>gap_size = sz, gap_node = Node 0\<rparr>]\<rparr>"

text \<open>
  \<open>new_mgr\<close> is what \<open>malloc\<close> returns for the manager (the address of a block that is
  not in use, or the null pointer) and \<open>region\<close> what \<open>calloc\<close> returns for the
  region (\<open>0\<close> is the null pointer). The two \<open>calloc\<close> calls for the node heap and
  the gap index are taken to succeed.
\<close>

definition mem_pool_open ::
    "env \<Rightarrow> nat option \<Rightarrow> nat \<Rightarrow> store \<Rightarrow> nat \<Rightarrow> alloc_policy \<Rightarrow> (nat option \<times> store) option" where
  "mem_pool_open e new_mgr region st0 sz pol =
     (if pool_store st0 = None then Some (None, st0)
      else do {
        st \<leftarrow> mem_resize_pool_store e st0;
        case new_mgr of
          None \<Rightarrow> Some (None, st)
        | Some p \<Rightarrow>
            if region = 0 then Some (None, st)
            else
              (let st1 = st\<lparr>mgrs := (mgrs st)(p := Some (mem_pool_open_mgr region sz pol))\<rparr> in
               case pool_store st1 of
                 None \<Rightarrow> None
               | Some a \<Rightarrow>
                   if pool_store_size st1 < length a then
                     Some (Some p, st1\<lparr>pool_store := Some (a[pool_store_size st1 := Some p]),
                                        pool_store_size := u32 (pool_store_size st1 + 1)\<rparr>)
                   else None)
      })"

text \<open>The loop of \<open>mem_pool_close\<close> that clears the first slot of the pool store that holds the manager.\<close>

function close_loop :: "nat option list \<Rightarrow> nat \<Rightarrow> nat \<Rightarrow> nat option list" where
  "close_loop a p i =
     (if i < length a then
        (if a ! i = Some p then a[i := None] else close_loop a p (Suc i))
      else a)"
  by pat_completeness auto
termination
  by (relation "measure (\<lambda>(a, p, i). length a - i)") auto

declare close_loop.simps [simp del]

text \<open>
  A pool pointer that is not null and is not the address of a manager is dangling; the
  call then has no result. On success the region, the node heap, the gap index and the
  manager are freed: the address no longer maps to a manager.
\<close>

definition mem_pool_close :: "store \<Rightarrow> nat option \<Rightarrow> (alloc_status \<times> store) option" where
  "mem_pool_close st pool_p =
     (case pool_p of
        None \<Rightarrow> Some (ALLOC_FAIL, st)
      | Some p \<Rightarrow>
          (case mgrs st p of
             None \<Rightarrow> None
           | Some pool_mgr \<Rightarrow>
               if num_gaps (pool pool_mgr) \<noteq> 1 then Some (ALLOC_NOT_FREED, st)
               else if num_allocs (pool pool_mgr) \<noteq> 0 then Some (ALLOC_NOT_FREED, st)
               else
                 Some (ALLOC_OK,
                   st\<lparr>pool_store := map_option (\<lambda>a. close_loop a p 0) (pool_store st),
                      mgrs := (mgrs st)(p := None)\<rparr>)))"

section \<open>The loops as list functions\<close>

text \<open>
  Each loop of the program walks an array by position. The lemmas of this section say
  what a loop computes in terms of the list behind the start position; they are also
  the equations with which the loops are evaluated.
\<close>

lemma shift_loop_eq [code]:
  "shift_loop past g j = (if j < length g then take j g @ drop (Suc j) g @ [past] else g)"
proof (induction past g j rule: shift_loop.induct)
  case (1 past g j)
  show ?case
  proof (cases "j < length g")
    case False
    then show ?thesis by (subst shift_loop.simps) simp
  next
    case True
    note jlt = True
    let ?g' = "g[j := gap_rd past g (Suc j)]"
    have unf: "shift_loop past g j = shift_loop past ?g' (Suc j)"
      using jlt by (subst shift_loop.simps) simp
    show ?thesis
    proof (cases "Suc j < length g")
      case True
      have "shift_loop past ?g' (Suc j) = take (Suc j) ?g' @ drop (Suc (Suc j)) ?g' @ [past]"
        using 1[OF jlt] True by simp
      also have "take (Suc j) ?g' = take j g @ [g ! Suc j]"
        using jlt True by (simp add: take_Suc_conv_app_nth gap_rd_def)
      also have "drop (Suc (Suc j)) ?g' = drop (Suc (Suc j)) g" by simp
      finally show ?thesis
        using unf jlt True by (simp add: Cons_nth_drop_Suc)
    next
      case False
      then have e: "Suc j = length g" using jlt by simp
      have "shift_loop past ?g' (Suc j) = ?g'"
        using 1[OF jlt] False by simp
      moreover have "?g' = take j g @ [past]"
        using e jlt by (simp add: gap_rd_def upd_conv_take_nth_drop)
      ultimately show ?thesis using unf jlt e by simp
    qed
  qed
qed



primrec bf_scan :: "gap_t list \<Rightarrow> nat \<Rightarrow> node_pt \<Rightarrow> node_pt" where
  "bf_scan [] sz a = a"
| "bf_scan (x # xs) sz a = (if sz \<le> gap_size x then gap_node x else bf_scan xs sz a)"

lemma best_fit_loop_scan [code]: "best_fit_loop g sz j a = bf_scan (drop j g) sz a"
proof (induction g sz j a rule: best_fit_loop.induct)
  case (1 g sz j a)
  show ?case
  proof (cases "j < length g")
    case False
    then show ?thesis by (subst best_fit_loop.simps) simp
  next
    case True
    then have d: "drop j g = g ! j # drop (Suc j) g" by (simp add: Cons_nth_drop_Suc)
    show ?thesis
      using True 1 by (subst best_fit_loop.simps) (simp add: d)
  qed
qed

primrec fu_scan :: "node_t list \<Rightarrow> nat \<Rightarrow> node_pt" where
  "fu_scan [] k = NULL"
| "fu_scan (n # ns) k = (if used n = 0 then Node k else fu_scan ns (Suc k))"

lemma find_unused_scan [code]: "find_unused h k = fu_scan (drop k (snd h)) (fst h + k)"
proof (induction h k rule: find_unused.induct)
  case (1 h k)
  show ?case
  proof (cases "k < length (snd h)")
    case False
    then show ?thesis by (subst find_unused.simps) simp
  next
    case True
    then have d: "drop k (snd h) = snd h ! k # drop (Suc k) (snd h)"
      by (simp add: Cons_nth_drop_Suc)
    show ?thesis
      using True 1 by (subst find_unused.simps) (simp add: d)
  qed
qed

primrec gf_scan :: "gap_t list \<Rightarrow> node_pt \<Rightarrow> nat \<Rightarrow> nat option" where
  "gf_scan [] node i = None"
| "gf_scan (x # xs) node i = (if gap_node x = node then Some i else gf_scan xs node (Suc i))"

lemma gap_find_scan [code]: "gap_find g node i = gf_scan (drop i g) node i"
proof (induction g node i rule: gap_find.induct)
  case (1 g node i)
  show ?case
  proof (cases "i < length g")
    case False
    then show ?thesis by (subst gap_find.simps) simp
  next
    case True
    then have d: "drop i g = g ! i # drop (Suc i) g" by (simp add: Cons_nth_drop_Suc)
    show ?thesis
      using True 1 by (subst gap_find.simps) (simp add: d)
  qed
qed

section \<open>Reads and writes of arena records\<close>

text \<open>\<open>Node (heap_at pm + a)\<close> is \<open>&node_heap[a]\<close>.\<close>

lemma slot_Node:
  "heap_at pm = b \<Longrightarrow> a < length (node_heap pm) \<Longrightarrow> slot (arena pm) (Node (b + a)) = Some a"
  by (auto simp: slot_def arena_def)

lemma rd_Node:
  "heap_at pm = b \<Longrightarrow> a < length (node_heap pm) \<Longrightarrow>
   rd pm (Node (b + a)) = Some (node_heap pm ! a)"
  by (simp add: rd_def node_at_def slot_Node) (simp add: arena_def)

lemma fld_Node:
  "heap_at pm = b \<Longrightarrow> a < length (node_heap pm) \<Longrightarrow>
   fld f pm (Node (b + a)) = Some (f (node_heap pm ! a))"
  by (simp add: fld_def rd_Node)

lemma wr_Node:
  "heap_at pm = b \<Longrightarrow> a < length (node_heap pm) \<Longrightarrow>
   wr (Node (b + a)) f pm =
     Some (pm\<lparr>node_heap := (node_heap pm)[a := f (node_heap pm ! a)]\<rparr>)"
  by (simp add: wr_def slot_Node)

lemma fu_scan_all_used: "\<forall>n\<in>set h. used n \<noteq> 0 \<Longrightarrow> fu_scan h k = NULL"
  by (induction h arbitrary: k) auto

lemma find_unused_all_used: "\<forall>n\<in>set (snd h). used n \<noteq> 0 \<Longrightarrow> find_unused h k = NULL"
  by (simp add: find_unused_scan fu_scan_all_used in_set_dropD)

lemma gf_scan_first:
  "pos < length g \<Longrightarrow> gap_node (g ! pos) = node \<Longrightarrow> \<forall>j<pos. gap_node (g ! j) \<noteq> node \<Longrightarrow>
   gf_scan g node i = Some (i + pos)"
proof (induction g arbitrary: pos i)
  case Nil
  then show ?case by simp
next
  case (Cons x xs)
  show ?case
  proof (cases pos)
    case 0
    with Cons.prems show ?thesis by simp
  next
    case (Suc q)
    have "gap_node x \<noteq> node" using Cons.prems(3) Suc by auto
    moreover have "gf_scan xs node (Suc i) = Some (Suc i + q)"
      using Cons.prems Suc by (intro Cons.IH) auto
    ultimately show ?thesis using Suc by simp
  qed
qed

lemma gap_find_first:
  "pos < length g \<Longrightarrow> gap_node (g ! pos) = node \<Longrightarrow> \<forall>j<pos. gap_node (g ! j) \<noteq> node \<Longrightarrow>
   gap_find g node 0 = Some pos"
  using gf_scan_first[of pos g node 0] by (simp add: gap_find_scan)

lemma remove_found:
  assumes "gap_find (gap_ix pm) node 0 = Some pos"
      and "u32_dec (num_gaps (pool pm)) < length (gap_ix pm)"
      and "pos < length (gap_ix pm)"
  shows "mem_remove_from_gap_ix e pm sz node =
           Some (ALLOC_OK, pm\<lparr>pool := (pool pm)\<lparr>num_gaps := u32_dec (num_gaps (pool pm))\<rparr>,
              gap_ix := (take pos (gap_ix pm) @ drop (Suc pos) (gap_ix pm) @ [past_gap e])
                          [u32_dec (num_gaps (pool pm)) := \<lparr>gap_size = 0, gap_node = NULL\<rparr>]\<rparr>)"
  using assms by (simp add: mem_remove_from_gap_ix_def shift_loop_eq Let_def)

section \<open>The growth checks\<close>

text \<open>
  The quotient of the two counters is computed in \<open>unsigned\<close> arithmetic, so it is
  \<open>0\<close> as long as the array is not full: the arena grows exactly when
  \<open>used_nodes\<close> has reached \<open>total_nodes\<close>, and the gap index exactly when
  \<open>num_gaps\<close> has reached \<open>gap_ix_capacity\<close>.
\<close>

lemma fill_factor_div: "b \<noteq> 0 \<Longrightarrow> (real (a div b) > 0.75) = (b \<le> (a::nat))"
proof -
  assume b: "b \<noteq> 0"
  have "(real (a div b) > 0.75) = (a div b \<ge> 1)"
    by (cases "a div b") auto
  also have "\<dots> = (b \<le> a)"
    using b by (simp add: Suc_le_eq div_greater_zero_iff)
  finally show ?thesis .
qed

lemma node_heap_fill_factor:
  "total_nodes pm \<noteq> 0 \<Longrightarrow>
   (real (used_nodes pm div total_nodes pm) > MEM_NODE_HEAP_FILL_FACTOR) =
   (total_nodes pm \<le> used_nodes pm)"
  unfolding MEM_NODE_HEAP_FILL_FACTOR_def by (rule fill_factor_div)

lemma gap_ix_fill_factor:
  "gap_ix_capacity pm \<noteq> 0 \<Longrightarrow>
   (real (num_gaps (pool pm) div gap_ix_capacity pm) > MEM_GAP_IX_FILL_FACTOR) =
   (gap_ix_capacity pm \<le> num_gaps (pool pm))"
  unfolding MEM_GAP_IX_FILL_FACTOR_def by (rule fill_factor_div)

lemma resize_node_heap_below:
  "0 < total_nodes pm \<Longrightarrow> used_nodes pm < total_nodes pm \<Longrightarrow> mem_resize_node_heap e pm = Some pm"
  by (simp add: mem_resize_node_heap_def MEM_NODE_HEAP_FILL_FACTOR_def)

lemma resize_node_heap_full:
  "0 < total_nodes pm \<Longrightarrow> total_nodes pm \<le> used_nodes pm \<Longrightarrow>
   u32 (2 * total_nodes pm) \<noteq> 0 \<Longrightarrow>
   mem_resize_node_heap e pm =
     Some (pm\<lparr>heap_at := node_heap_to e (heap_at pm),
              node_heap := realloc_arr (fresh_node e) (node_heap pm) (u32 (2 * total_nodes pm))\<rparr>)"
  by (simp add: mem_resize_node_heap_def node_heap_fill_factor MEM_NODE_HEAP_EXPAND_FACTOR_def)

lemma resize_gap_ix_below:
  "0 < gap_ix_capacity pm \<Longrightarrow> num_gaps (pool pm) < gap_ix_capacity pm \<Longrightarrow>
   mem_resize_gap_ix e pm = Some pm"
  by (simp add: mem_resize_gap_ix_def MEM_GAP_IX_FILL_FACTOR_def)

lemma resize_gap_ix_full:
  "0 < gap_ix_capacity pm \<Longrightarrow> gap_ix_capacity pm \<le> num_gaps (pool pm) \<Longrightarrow>
   u32 (2 * gap_ix_capacity pm) \<noteq> 0 \<Longrightarrow>
   mem_resize_gap_ix e pm =
     Some (pm\<lparr>gap_ix := realloc_arr (fresh_gap e) (gap_ix pm) (u32 (2 * gap_ix_capacity pm))\<rparr>)"
  by (simp add: mem_resize_gap_ix_def gap_ix_fill_factor MEM_GAP_IX_EXPAND_FACTOR_def)

section \<open>Sequences of calls\<close>

text \<open>
  A run of a client: every call names the result that the client sees, the pointer
  returned by \<open>mem_new_alloc\<close> or the status returned by \<open>mem_del_alloc\<close>. The run
  has a result only if every call returns and returns what is named.
\<close>

datatype call = Alloc nat node_pt | Release node_pt alloc_status

fun calls :: "env \<Rightarrow> pool_mgr_t \<Rightarrow> call list \<Rightarrow> pool_mgr_t option" where
  "calls e pm [] = Some pm"
| "calls e pm (Alloc sz r # cs) =
     (case mem_new_alloc e pm sz of
        None \<Rightarrow> None
      | Some (r', pm') \<Rightarrow> if r' = r then calls e pm' cs else None)"
| "calls e pm (Release h st # cs) =
     (case mem_del_alloc e pm h of
        None \<Rightarrow> None
      | Some (st', pm') \<Rightarrow> if st' = st then calls e pm' cs else None)"

lemma calls_append:
  "calls e pm (xs @ ys) = (case calls e pm xs of None \<Rightarrow> None | Some pm' \<Rightarrow> calls e pm' ys)"
proof (induction xs arbitrary: pm)
  case Nil
  then show ?case by simp
next
  case (Cons c cs)
  then show ?case by (cases c) (auto split: option.splits)
qed

subsection \<open>A pool of 1000 bytes under first-fit that fills its arena\<close>

text \<open>
  The pool is opened with a region of 1000 bytes at address 5000. \<open>after_allocs k\<close> is
  the manager after \<open>k\<close> allocations of 10 bytes: records \<open>0\<close> to \<open>k - 1\<close> are the
  allocations, record \<open>k\<close> is the gap behind them. After 39 allocations all 40 records
  of the arena are in use.
\<close>

definition alloc_rec :: "nat \<Rightarrow> node_t" where
  "alloc_rec i = \<lparr>alloc_record = \<lparr>rec_size = 10, rec_mem = 5000 + 10 * i\<rparr>, used = 1,
     allocated = 1, next_n = Node (i + 1), prev_n = (if i = 0 then NULL else Node (i - 1))\<rparr>"

definition gap_rec :: "nat \<Rightarrow> node_t" where
  "gap_rec k = \<lparr>alloc_record = \<lparr>rec_size = 1000 - 10 * k, rec_mem = 5000 + 10 * k\<rparr>, used = 1,
     allocated = 0, next_n = NULL, prev_n = (if k = 0 then NULL else Node (k - 1))\<rparr>"

definition after_allocs :: "nat \<Rightarrow> pool_mgr_t" where
  "after_allocs k =
     \<lparr>pool = \<lparr>pool_mem = 5000, policy = FIRST_FIT, total_size = 1000, alloc_size = 10 * k,
              num_allocs = k, num_gaps = 1\<rparr>,
      heap_at = 0,
      node_heap = map alloc_rec [0..<k] @ gap_rec k # replicate (39 - k) zero_node,
      used_nodes = k + 1,
      gap_ix = \<lparr>gap_size = 1000 - 10 * k, gap_node = Node k\<rparr> # replicate 39 zero_gap\<rparr>"

definition allocs :: "nat \<Rightarrow> nat \<Rightarrow> call list" where
  "allocs i j = map (\<lambda>k. Alloc 10 (Node k)) [i..<j]"

lemma open_is_after_allocs_0: "mem_pool_open_mgr 5000 1000 FIRST_FIT = after_allocs 0"
  by code_simp

lemma allocs_0_10: "calls zero_env (after_allocs 0) (allocs 0 10) = Some (after_allocs 10)"
  by code_simp

lemma allocs_10_20: "calls zero_env (after_allocs 10) (allocs 10 20) = Some (after_allocs 20)"
  by code_simp

lemma allocs_20_30: "calls zero_env (after_allocs 20) (allocs 20 30) = Some (after_allocs 30)"
  by code_simp

lemma allocs_30_39: "calls zero_env (after_allocs 30) (allocs 30 39) = Some (after_allocs 39)"
  by code_simp

lemma allocs_split:
  assumes "i \<le> j" and "j \<le> k"
  shows "allocs i k = allocs i j @ allocs j k"
proof -
  have "[i..<k] = [i..<j] @ [j..<k]"
    using assms by (metis le_add_diff_inverse upt_add_eq_append)
  then show ?thesis by (simp add: allocs_def)
qed

lemma reach_after_allocs_30:
  "calls zero_env (mem_pool_open_mgr 5000 1000 FIRST_FIT) (allocs 0 30) = Some (after_allocs 30)"
proof -
  have "allocs 0 30 = allocs 0 10 @ allocs 10 20 @ allocs 20 30"
    using allocs_split[of 0 10 30] allocs_split[of 10 20 30] by simp
  then show ?thesis
    by (simp add: open_is_after_allocs_0 calls_append allocs_0_10 allocs_10_20 allocs_20_30)
qed

lemma reach_after_allocs_39:
  "calls zero_env (mem_pool_open_mgr 5000 1000 FIRST_FIT) (allocs 0 39) = Some (after_allocs 39)"
proof -
  have "allocs 0 39 = allocs 0 30 @ allocs 30 39"
    using allocs_split[of 0 30 39] by simp
  then show ?thesis
    by (simp add: calls_append reach_after_allocs_30 allocs_30_39)
qed

text \<open>
  The client then releases the first three allocations, which merge into one gap of 30
  bytes in record 0 and free records 1 and 2, and allocates 600 bytes, which are taken
  from the gap in record 39; the remaining 10 bytes become a gap in record 1.
  \<open>last_record_allocated\<close> is the manager after these calls: the last record of the
  arena is an allocation of 600 bytes, the gaps have 30 and 10 bytes.
\<close>

definition release_3_alloc_600 :: "call list" where
  "release_3_alloc_600 =
     [Release (Node 0) ALLOC_OK, Release (Node 1) ALLOC_OK, Release (Node 2) ALLOC_OK,
      Alloc 600 (Node 39)]"

definition last_record_allocated :: pool_mgr_t where
  "last_record_allocated =
     \<lparr>pool = \<lparr>pool_mem = 5000, policy = FIRST_FIT, total_size = 1000, alloc_size = 960,
              num_allocs = 37, num_gaps = 2\<rparr>,
      heap_at = 0,
      node_heap =
        [\<lparr>alloc_record = \<lparr>rec_size = 30, rec_mem = 5000\<rparr>, used = 1, allocated = 0,
           next_n = Node 3, prev_n = NULL\<rparr>,
         \<lparr>alloc_record = \<lparr>rec_size = 10, rec_mem = 5990\<rparr>, used = 1, allocated = 0,
           next_n = NULL, prev_n = Node 39\<rparr>,
         zero_node,
         (alloc_rec 3)\<lparr>prev_n := Node 0\<rparr>]
        @ map alloc_rec [4..<39] @
        [\<lparr>alloc_record = \<lparr>rec_size = 600, rec_mem = 5390\<rparr>, used = 1, allocated = 1,
           next_n = Node 1, prev_n = Node 38\<rparr>],
      used_nodes = 39,
      gap_ix = [\<lparr>gap_size = 10, gap_node = Node 1\<rparr>, \<lparr>gap_size = 30, gap_node = Node 0\<rparr>]
        @ replicate 38 zero_gap\<rparr>"

lemma release_3_alloc_600_run:
  "calls zero_env (after_allocs 39) release_3_alloc_600 = Some last_record_allocated"
  by code_simp

lemma reach_last_record_allocated:
  "calls zero_env (mem_pool_open_mgr 5000 1000 FIRST_FIT) (allocs 0 39 @ release_3_alloc_600)
     = Some last_record_allocated"
  by (simp add: calls_append reach_after_allocs_39 release_3_alloc_600_run)

section \<open>The pool as the specification describes it\<close>

text \<open>
  \<open>segments\<close> is what \<open>mem_inspect_pool\<close> reports: the pairs of size and
  \<open>allocated\<close> in list order. \<open>adjacent_gaps\<close> says that two neighbours in such a
  sequence are both gaps.

  \<open>segment_list\<close> is the list of arena positions reached from record 0 along
  \<open>next\<close>; it is \<open>None\<close> if the walk leaves the arena or does not end within
  \<open>total_nodes\<close> steps. \<open>gap_base\<close> is the base of the segment that an entry of the
  gap index refers to.

  \<open>at_rest\<close> states the invariants of section 3 of the specification, in its words:
  the used records are exactly the records of one doubly-linked list in strictly
  ascending order of \<open>base\<close>; the segments tile the region, starting at its base; no
  two neighbours are both gaps; the gap index holds, in its first \<open>num_gaps\<close> cells,
  one entry for every gap of the list, with the size of the gap, sorted by size and then
  by base; \<open>num_allocs\<close>, \<open>num_gaps\<close> and \<open>alloc_size\<close> agree with a scan of the
  list; \<open>alloc_size\<close> and the sizes of the gaps add up to \<open>total_size\<close>.
\<close>

definition segments :: "pool_mgr_t \<Rightarrow> (nat \<times> nat) list option" where
  "segments pm =
     map_option (\<lambda>r. map (\<lambda>s. (seg_size s, seg_allocated s)) (fst r)) (mem_inspect_pool pm)"

fun adjacent_gaps :: "(nat \<times> nat) list \<Rightarrow> bool" where
  "adjacent_gaps (a # b # xs) = ((snd a = 0 \<and> snd b = 0) \<or> adjacent_gaps (b # xs))"
| "adjacent_gaps xs = False"

fun list_from :: "nat \<times> node_t list \<Rightarrow> nat \<Rightarrow> node_pt \<Rightarrow> nat list option" where
  "list_from h 0 p = (if p = NULL then Some [] else None)"
| "list_from h (Suc n) p =
     (if p = NULL then Some []
      else
        (case slot h p of
           None \<Rightarrow> None
         | Some k \<Rightarrow> map_option ((#) k) (list_from h n (next_n (snd h ! k)))))"

definition segment_list :: "pool_mgr_t \<Rightarrow> nat list option" where
  "segment_list pm = list_from (arena pm) (length (node_heap pm)) (Node (heap_at pm))"

definition gap_base :: "nat \<times> node_t list \<Rightarrow> gap_t \<Rightarrow> nat" where
  "gap_base h g = (case node_at h (gap_node g) of None \<Rightarrow> 0 | Some n \<Rightarrow> node_mem n)"

definition gap_le :: "nat \<times> node_t list \<Rightarrow> gap_t \<Rightarrow> gap_t \<Rightarrow> bool" where
  "gap_le h a b =
     (gap_size a < gap_size b \<or> (gap_size a = gap_size b \<and> gap_base h a \<le> gap_base h b))"

definition at_rest_on :: "pool_mgr_t \<Rightarrow> nat list \<Rightarrow> node_t list \<Rightarrow> gap_t list \<Rightarrow> bool" where
  "at_rest_on pm ks ns live =
     (ks \<noteq> [] \<and> distinct ks \<and>
      list_all (\<lambda>n. used n \<noteq> 0) ns \<and>
      length (filter (\<lambda>n. used n \<noteq> 0) (node_heap pm)) = length ks \<and>
      map prev_n ns = NULL # map (\<lambda>k. Node (heap_at pm + k)) (butlast ks) \<and>
      sorted_wrt (<) (map node_mem ns) \<and>
      node_mem (hd ns) = pool_mem (pool pm) \<and>
      list_all2 (\<lambda>a b. node_mem a + node_size a = node_mem b) (butlast ns) (tl ns) \<and>
      sum_list (map node_size ns) = total_size (pool pm) \<and>
      \<not> adjacent_gaps (map (\<lambda>n. (node_size n, allocated n)) ns) \<and>
      num_gaps (pool pm) \<le> length (gap_ix pm) \<and>
      distinct (map gap_node live) \<and>
      list_all (\<lambda>g. case slot (arena pm) (gap_node g) of
                       None \<Rightarrow> False
                     | Some k \<Rightarrow> k \<in> set ks \<and> allocated (node_heap pm ! k) = 0 \<and>
                         gap_size g = node_size (node_heap pm ! k)) live \<and>
      length live = length (filter (\<lambda>n. allocated n = 0) ns) \<and>
      sorted_wrt (gap_le (arena pm)) live \<and>
      num_allocs (pool pm) = length (filter (\<lambda>n. allocated n \<noteq> 0) ns) \<and>
      num_gaps (pool pm) = length (filter (\<lambda>n. allocated n = 0) ns) \<and>
      alloc_size (pool pm) = sum_list (map node_size (filter (\<lambda>n. allocated n \<noteq> 0) ns)) \<and>
      alloc_size (pool pm) + sum_list (map node_size (filter (\<lambda>n. allocated n = 0) ns))
        = total_size (pool pm))"

definition at_rest :: "pool_mgr_t \<Rightarrow> bool" where
  "at_rest pm =
     (case segment_list pm of
        None \<Rightarrow> False
      | Some ks \<Rightarrow>
          at_rest_on pm ks (map ((!) (node_heap pm)) ks) (take (num_gaps (pool pm)) (gap_ix pm)))"

section \<open>Claims\<close>

text \<open>
  C7. The growth check at the start of \<open>mem_new_alloc\<close> is meant to double the arena
  when more than three quarters of it are in use. After 30 allocations of 10 bytes from a
  pool of 1000 bytes, 31 of the 40 records are in use, which is more than three quarters
  (\<open>31 * 4 > 40 * 3\<close>); \<open>_mem_resize_node_heap\<close> leaves the arena as it is, and
  so does the next allocation. (\<open>_mem_resize_gap_ix\<close> divides in the same way, see
  \<open>resize_gap_ix_below\<close>.)
\<close>

theorem C7_no_growth_above_fill_factor:
  "calls zero_env (mem_pool_open_mgr 5000 1000 FIRST_FIT) (allocs 0 30) = Some (after_allocs 30) \<and>
   used_nodes (after_allocs 30) = 31 \<and> total_nodes (after_allocs 30) = 40 \<and>
   real (used_nodes (after_allocs 30)) / real (total_nodes (after_allocs 30)) > 0.75 \<and>
   used_nodes (after_allocs 30) * 4 > total_nodes (after_allocs 30) * 3 \<and>
   mem_resize_node_heap zero_env (after_allocs 30) = Some (after_allocs 30) \<and>
   (\<exists>pm'. mem_new_alloc zero_env (after_allocs 30) 10 = Some (Node 30, pm') \<and> total_nodes pm' = 40)"
proof -
  have u: "used_nodes (after_allocs 30) = 31" and t: "total_nodes (after_allocs 30) = 40"
    by (simp_all add: after_allocs_def total_nodes_def)
  have r: "mem_resize_node_heap zero_env (after_allocs 30) = Some (after_allocs 30)"
    by (rule resize_node_heap_below) (simp_all add: u t)
  have "calls zero_env (after_allocs 30) (allocs 30 31) = Some (after_allocs 31)"
    by code_simp
  then have "mem_new_alloc zero_env (after_allocs 30) 10 = Some (Node 30, after_allocs 31)"
    by (simp add: allocs_def split: option.splits prod.splits if_splits)
  moreover have "total_nodes (after_allocs 31) = 40"
    by (simp add: after_allocs_def total_nodes_def)
  ultimately show ?thesis
    using reach_after_allocs_30 u t r by simp
qed

subsection \<open>Closing a pool\<close>

lemma close_loop_first:
  "j < length a \<Longrightarrow> a ! j = Some p \<Longrightarrow> i \<le> j \<Longrightarrow> \<forall>k. i \<le> k \<and> k < j \<longrightarrow> a ! k \<noteq> Some p \<Longrightarrow>
   close_loop a p i = a[j := None]"
proof (induction a p i rule: close_loop.induct)
  case (1 a p i)
  show ?case
  proof (cases "i = j")
    case True
    with 1 show ?thesis by (subst close_loop.simps) simp
  next
    case False
    with 1 have "i < j" "a ! i \<noteq> Some p" by auto
    moreover from this 1 have "close_loop a p (Suc i) = a[j := None]" by auto
    ultimately show ?thesis using "1.prems" by (subst close_loop.simps) simp
  qed
qed

lemma close_loop_absent:
  "\<forall>k. i \<le> k \<and> k < length a \<longrightarrow> a ! k \<noteq> Some p \<Longrightarrow> close_loop a p i = a"
proof (induction a p i rule: close_loop.induct)
  case (1 a p i)
  then show ?case by (subst close_loop.simps) auto
qed

text \<open>
  C6. For a pool pointer that is the address of a manager, \<open>mem_pool_close\<close> returns
  \<open>ALLOC_OK\<close> if and only if the pool has \<open>num_allocs = 0\<close> and \<open>num_gaps = 1\<close>.
  In every other state of the pool it returns \<open>ALLOC_NOT_FREED\<close> and changes nothing:
  the store with its pool store array, its size and all managers (with their regions,
  node heaps, gap indexes and counters) is the same. On success the manager with its
  region, node heap and gap index is freed, and the first slot of the pool store that
  held the manager is cleared; nothing else changes.
\<close>

theorem C6_mem_pool_close:
  assumes "mgrs st p = Some pm"
  shows "((\<exists>st'. mem_pool_close st (Some p) = Some (ALLOC_OK, st')) \<longleftrightarrow>
            (num_allocs (pool pm) = 0 \<and> num_gaps (pool pm) = 1)) \<and>
         (\<not> (num_allocs (pool pm) = 0 \<and> num_gaps (pool pm) = 1) \<longrightarrow>
            mem_pool_close st (Some p) = Some (ALLOC_NOT_FREED, st)) \<and>
         (num_allocs (pool pm) = 0 \<and> num_gaps (pool pm) = 1 \<longrightarrow>
            (\<exists>st'. mem_pool_close st (Some p) = Some (ALLOC_OK, st') \<and>
               mgrs st' p = None \<and> (\<forall>q. q \<noteq> p \<longrightarrow> mgrs st' q = mgrs st q) \<and>
               pool_store_size st' = pool_store_size st \<and>
               pool_store st' = map_option (\<lambda>a. close_loop a p 0) (pool_store st) \<and>
               (\<forall>a j. pool_store st = Some a \<and> j < length a \<and> a ! j = Some p \<and>
                      (\<forall>k<j. a ! k \<noteq> Some p) \<longrightarrow> pool_store st' = Some (a[j := None]))))"
  using assms by (auto simp: mem_pool_close_def close_loop_first)

text \<open>
  The store after \<open>mem_init\<close> and one \<open>mem_pool_open\<close>, for which \<open>malloc\<close>
  returned the address 7; \<open>pm\<close> is the manager at that address.
\<close>

definition one_pool_store :: "pool_mgr_t \<Rightarrow> store" where
  "one_pool_store pm =
     \<lparr>pool_store = Some ((replicate 20 None)[0 := Some 7]), pool_store_size = 1,
      mgrs = (\<lambda>_. None)(7 := Some pm)\<rparr>"

definition no_store :: store where
  "no_store = \<lparr>pool_store = None, pool_store_size = 0, mgrs = (\<lambda>_. None)\<rparr>"

lemma one_pool_store_open:
  "mem_pool_open zero_env (Some 7) 5000 (snd (mem_init no_store)) 1000 FIRST_FIT =
     Some (Some 7, one_pool_store (mem_pool_open_mgr 5000 1000 FIRST_FIT))"
  by (simp add: mem_pool_open_def mem_init_def no_store_def one_pool_store_def
      mem_resize_pool_store_def MEM_POOL_STORE_INIT_CAPACITY_def MEM_POOL_STORE_FILL_FACTOR_def
      pool_store_capacity_def u32_def)

text \<open>
  C6 at a pool that was just opened (closing succeeds) and at the pool after one
  allocation (closing is refused).
\<close>

theorem C6_mem_pool_close_witness:
  "(\<exists>st'. mem_pool_close (one_pool_store (after_allocs 0)) (Some 7) = Some (ALLOC_OK, st') \<and>
      mgrs st' 7 = None \<and> pool_store st' = Some (replicate 20 None)) \<and>
   mem_pool_close (one_pool_store (after_allocs 1)) (Some 7) =
      Some (ALLOC_NOT_FREED, one_pool_store (after_allocs 1))"
proof -
  have m: "mgrs (one_pool_store pm) 7 = Some pm" for pm
    by (simp add: one_pool_store_def)
  have s: "pool_store (one_pool_store pm) = Some ((replicate 20 None)[0 := Some 7])" for pm
    by (simp add: one_pool_store_def)
  have c: "close_loop ((replicate 20 None)[0 := Some 7]) 7 0 = replicate 20 None"
    by (subst close_loop_first[where j = 0]) (simp_all add: list_update_same_conv)
  have z: "num_allocs (pool (after_allocs 0)) = 0 \<and> num_gaps (pool (after_allocs 0)) = 1"
    by (simp add: after_allocs_def)
  have o: "\<not> (num_allocs (pool (after_allocs 1)) = 0 \<and> num_gaps (pool (after_allocs 1)) = 1)"
    by (simp add: after_allocs_def)
  show ?thesis
    using C6_mem_pool_close[OF m, of "after_allocs 0"] C6_mem_pool_close[OF m, of "after_allocs 1"]
      z o
    by (auto simp: s c)
qed

subsection \<open>Removing an entry from the gap index\<close>

text \<open>
  The shift loop always runs to the last cell of the array, so the last cell receives
  the value read behind the array. The entries before the removed one stay, the
  entries behind it move down by one: their order is kept.
\<close>

lemma shift_loop_last: "pos < length g \<Longrightarrow> last (shift_loop past g pos) = past"
  by (simp add: shift_loop_eq)

lemma remove_keeps_order:
  assumes "gap_find (gap_ix pm) node 0 = Some pos"
      and "pos < num_gaps (pool pm)" and "num_gaps (pool pm) \<le> gap_ix_capacity pm"
      and "mem_remove_from_gap_ix e pm sz node = Some (st, pm')"
  shows "st = ALLOC_OK \<and> num_gaps (pool pm') = num_gaps (pool pm) - 1 \<and>
         take (num_gaps (pool pm')) (gap_ix pm') =
           take pos (gap_ix pm) @ drop (Suc pos) (take (num_gaps (pool pm)) (gap_ix pm))"
proof -
  let ?n = "num_gaps (pool pm)" and ?g = "gap_ix pm"
  have n: "u32_dec ?n = ?n - 1" "?n - 1 < length ?g" "pos < length ?g" "pos \<le> ?n - 1"
    using assms(2,3) by (auto simp: u32_dec_def gap_ix_capacity_def)
  have "mem_remove_from_gap_ix e pm sz node = Some (ALLOC_OK, pm\<lparr>pool := (pool pm)\<lparr>num_gaps := ?n - 1\<rparr>,
          gap_ix := (take pos ?g @ drop (Suc pos) ?g @ [past_gap e])[?n - 1 := \<lparr>gap_size = 0, gap_node = NULL\<rparr>]\<rparr>)"
    using remove_found[OF assms(1), of e sz] n by simp
  with assms(4) have st: "st = ALLOC_OK" and pm': "pm' = pm\<lparr>pool := (pool pm)\<lparr>num_gaps := ?n - 1\<rparr>,
          gap_ix := (take pos ?g @ drop (Suc pos) ?g @ [past_gap e])[?n - 1 := \<lparr>gap_size = 0, gap_node = NULL\<rparr>]\<rparr>"
    by simp_all
  have "take (?n - 1) ((take pos ?g @ drop (Suc pos) ?g @ [past_gap e])[?n - 1 := \<lparr>gap_size = 0, gap_node = NULL\<rparr>])
      = take (?n - 1) (take pos ?g @ drop (Suc pos) ?g @ [past_gap e])"
    by simp
  also have "\<dots> = take pos ?g @ take (?n - 1 - pos) (drop (Suc pos) ?g)"
    using n by (simp add: min_def)
  also have "take (?n - 1 - pos) (drop (Suc pos) ?g) = drop (Suc pos) (take ?n ?g)"
    using assms(2) by (simp add: drop_take)
  finally show ?thesis using st pm' by simp
qed

text \<open>
  C8. Removing an entry from the gap index is meant to touch positions \<open>0\<close> to
  \<open>gap_ix_capacity - 1\<close> only. In a pool that was just opened (capacity 40, one entry
  at position 0), let the cell behind the array hold the entry \<open>(777, Node 5)\<close>. After
  \<open>_mem_remove_from_gap_ix\<close> for the entry at position 0, and likewise after the first
  \<open>mem_new_alloc\<close>, cell 39 of the gap index holds \<open>(777, Node 5)\<close>: the loop has
  read position 40 and copied it into the array.
\<close>

definition marked_env :: env where
  "marked_env = zero_env\<lparr>past_gap := \<lparr>gap_size = 777, gap_node = Node 5\<rparr>\<rparr>"

theorem C8_shift_reads_behind_gap_ix:
  "gap_ix_capacity (mem_pool_open_mgr 5000 1000 BEST_FIT) = 40 \<and>
   num_gaps (pool (mem_pool_open_mgr 5000 1000 BEST_FIT)) = 1 \<and>
   map_option (\<lambda>r. (fst r, gap_ix (snd r) ! 39))
     (mem_remove_from_gap_ix marked_env (mem_pool_open_mgr 5000 1000 BEST_FIT) 1000 (Node 0))
     = Some (ALLOC_OK, \<lparr>gap_size = 777, gap_node = Node 5\<rparr>) \<and>
   map_option (\<lambda>r. (fst r, gap_ix (snd r) ! 39))
     (mem_new_alloc marked_env (mem_pool_open_mgr 5000 1000 BEST_FIT) 100)
     = Some (Node 0, \<lparr>gap_size = 777, gap_node = Node 5\<rparr>)"
  by code_simp

subsection \<open>First-fit when no gap fits\<close>

text \<open>
  In \<open>last_record_allocated\<close> the gaps have 30 and 10 bytes, and the last record of the
  arena is an allocation of 600 bytes. A request of 40 bytes fits no gap. The first-fit
  loop ends with \<open>a_node\<close> at the last record, and the check after the loop compares
  only the size of that record with the request: \<open>600 \<ge> 40\<close>, so the allocated record
  is taken as the candidate.
\<close>

lemma last_record_allocated_at_rest: "at_rest last_record_allocated"
  by code_simp

text \<open>
  C3. After a completed allocate or release no two neighbours in the segment list should
  both be gaps. The calls \<open>allocs 0 39 @ release_3_alloc_600\<close> on a pool of 1000
  bytes under first-fit lead to \<open>last_record_allocated\<close>. The next call,
  \<open>mem_new_alloc\<close> for 40 bytes, returns record 39 (the allocation of 600 bytes, which
  the client still holds), cuts it down to 40 bytes and puts a new gap of 560 bytes
  behind it, in front of the gap of 10 bytes: the list then ends with two gaps.
\<close>

theorem C3_adjacent_gaps_after_alloc:
  "calls zero_env (mem_pool_open_mgr 5000 1000 FIRST_FIT) (allocs 0 39 @ release_3_alloc_600)
     = Some last_record_allocated \<and>
   map_option (\<lambda>r. (fst r, segments (snd r))) (mem_new_alloc zero_env last_record_allocated 40)
     = Some (Node 39, Some ((30, 0) # replicate 36 (10, 1) @ [(40, 1), (560, 0), (10, 0)])) \<and>
   adjacent_gaps ((30, 0) # replicate 36 (10, 1) @ [(40, 1), (560, 0), (10, 0)])"
proof -
  have "map_option (\<lambda>r. (fst r, segments (snd r)))
      (mem_new_alloc zero_env last_record_allocated 40)
     = Some (Node 39, Some ((30, 0) # replicate 36 (10, 1) @ [(40, 1), (560, 0), (10, 0)]))"
    by code_simp
  moreover have "adjacent_gaps ((30, 0) # replicate 36 (10, 1) @ [(40, 1), (560, 0), (10, 0)])"
    by code_simp
  ultimately show ?thesis
    using reach_last_record_allocated by simp
qed

text \<open>
  C4. An allocate that succeeds, followed by the release of the returned handle, should
  give back the segments and the counters from before the allocate. The manager
  \<open>last_record_allocated\<close> satisfies the invariants at rest; \<open>mem_new_alloc\<close> for 40
  bytes returns record 39, and \<open>mem_del_alloc\<close> of that handle returns \<open>ALLOC_OK\<close>.
  Before the two calls the list ends with an allocation of 600 bytes and a gap of 10
  bytes and \<open>num_gaps\<close> is 2; after them it ends with a gap of 600 bytes and a gap of
  10 bytes and \<open>num_gaps\<close> is 3.
\<close>

theorem C4_alloc_release_changes_pool:
  "calls zero_env (mem_pool_open_mgr 5000 1000 FIRST_FIT) (allocs 0 39 @ release_3_alloc_600)
     = Some last_record_allocated \<and>
   at_rest last_record_allocated \<and>
   (segments last_record_allocated, num_allocs (pool last_record_allocated),
      num_gaps (pool last_record_allocated), alloc_size (pool last_record_allocated))
     = (Some ((30, 0) # replicate 36 (10, 1) @ [(600, 1), (10, 0)]), 37, 2, 960) \<and>
   (mem_new_alloc zero_env last_record_allocated 40 \<bind> (\<lambda>r.
      mem_del_alloc zero_env (snd r) (fst r) \<bind> (\<lambda>d.
        Some (fst r, fst d, segments (snd d), num_allocs (pool (snd d)),
              num_gaps (pool (snd d)), alloc_size (pool (snd d))))))
     = Some (Node 39, ALLOC_OK, Some ((30, 0) # replicate 36 (10, 1) @ [(600, 0), (10, 0)]),
             37, 3, 960)"
proof -
  have "(segments last_record_allocated, num_allocs (pool last_record_allocated),
      num_gaps (pool last_record_allocated), alloc_size (pool last_record_allocated))
     = (Some ((30, 0) # replicate 36 (10, 1) @ [(600, 1), (10, 0)]), 37, 2, 960)"
    by code_simp
  moreover have "(mem_new_alloc zero_env last_record_allocated 40 \<bind> (\<lambda>r.
      mem_del_alloc zero_env (snd r) (fst r) \<bind> (\<lambda>d.
        Some (fst r, fst d, segments (snd d), num_allocs (pool (snd d)),
              num_gaps (pool (snd d)), alloc_size (pool (snd d))))))
     = Some (Node 39, ALLOC_OK, Some ((30, 0) # replicate 36 (10, 1) @ [(600, 0), (10, 0)]),
             37, 3, 960)"
    by code_simp
  ultimately show ?thesis
    using reach_last_record_allocated last_record_allocated_at_rest by simp
qed

subsection \<open>First-fit walks the arena\<close>

text \<open>
  \<open>fits\<close> is the test of the first-fit loop. \<open>first_fit_in_list_order\<close> is the
  selection in the words of the specification: scan the segment list in address order,
  pick the first gap with \<open>size \<ge> request\<close>, and give the null pointer when no gap fits.
\<close>

definition fits :: "nat \<Rightarrow> node_t \<Rightarrow> bool" where
  "fits sz n = (used n \<noteq> 0 \<and> allocated n = 0 \<and> sz \<le> node_size n)"




text \<open>
  \<open>post Q m\<close>: if the call \<open>m\<close> returns, its result satisfies \<open>Q\<close>. With the rules
  below a property of a function is shown by following its statements one by one.
\<close>

definition post :: "('a \<Rightarrow> bool) \<Rightarrow> 'a option \<Rightarrow> bool" where
  "post Q m = (case m of None \<Rightarrow> True | Some r \<Rightarrow> Q r)"

lemma post_I: "(\<And>y. m = Some y \<Longrightarrow> Q y) \<Longrightarrow> post Q m"
  by (cases m) (simp_all add: post_def)

lemma post_Some: "Q r \<Longrightarrow> post Q (Some r)"
  by (simp add: post_def)

lemma post_bind: "post (\<lambda>y. post Q (f y)) m \<Longrightarrow> post Q (m \<bind> f)"
  by (cases m) (simp_all add: post_def)

lemma post_if: "(c \<Longrightarrow> post Q a) \<Longrightarrow> (\<not> c \<Longrightarrow> post Q b) \<Longrightarrow> post Q (if c then a else b)"
  by simp

lemma postD: "post Q m \<Longrightarrow> m = Some r \<Longrightarrow> Q r"
  by (simp add: post_def)

text \<open>
  A write that leaves \<open>used\<close> as it is does not change which records are in use; the
  search for an unused record gives the null pointer only if every record is in use.
\<close>

lemma wr_keeps_used:
  assumes "wr p f pm = Some pm'" and "\<And>n. used (f n) = used n"
  shows "map used (node_heap pm') = map used (node_heap pm)"
proof -
  obtain i where i: "pm' = pm\<lparr>node_heap := (node_heap pm)[i := f (node_heap pm ! i)]\<rparr>"
      "i < length (node_heap pm)"
    using assms(1)
    by (auto simp: wr_def slot_def arena_def split: option.splits node_pt.splits if_splits)
  show ?thesis
    using assms(2) i(2) by (simp add: i(1) map_update list_update_same_conv)
qed

lemma all_used_map: "(\<forall>n\<in>set h. used n \<noteq> 0) = (0 \<notin> set (map used h))"
  by auto

lemma fu_scan_NULL: "fu_scan h k = NULL \<Longrightarrow> \<forall>n\<in>set h. used n \<noteq> 0"
  by (induction h arbitrary: k) (auto split: if_splits)

lemma find_unused_NULL:
  "find_unused (arena pm) 0 = NULL \<Longrightarrow> \<forall>n\<in>set (node_heap pm). used n \<noteq> 0"
  using fu_scan_NULL[of "node_heap pm" "heap_at pm"] by (simp add: find_unused_scan arena_def)

lemma new_alloc_residual_result:
  assumes "new_alloc_residual e pm a sz r = Some res"
  shows "fst res = a \<or> (fst res = NULL \<and> (\<forall>n\<in>set (node_heap pm). used n \<noteq> 0))"
proof (cases "find_unused (arena pm) 0 = NULL")
  case True
  then show ?thesis
    using assms find_unused_NULL[OF True] by (auto simp: new_alloc_residual_def)
next
  case False
  then show ?thesis
    using assms by (auto simp: new_alloc_residual_def Let_def bind_eq_Some_conv)
qed

lemma remove_keeps_node_heap:
  "mem_remove_from_gap_ix e pm sz node = Some r \<Longrightarrow>
   node_heap (snd r) = node_heap pm \<and> heap_at (snd r) = heap_at pm"
  by (auto simp: mem_remove_from_gap_ix_def Let_def split: option.splits if_splits)

lemma rd_pool [simp]: "rd (pm\<lparr>pool := q\<rparr>) p = rd pm p"
  by (simp add: rd_def arena_def)

lemma alloc_steps_keep_used:
  assumes "mem_remove_from_gap_ix e pm2 sz a = Some r"
      and "wr a (set_allocated v) (snd r) = Some pm4" and "wr a (set_size sz) pm4 = Some pm5"
      and "\<forall>n\<in>set (node_heap pm5). used n \<noteq> 0"
  shows "\<forall>n\<in>set (node_heap pm2). used n \<noteq> 0"
proof -
  have "map used (node_heap pm5) = map used (node_heap pm2)"
    using wr_keeps_used[OF assms(3)] wr_keeps_used[OF assms(2)]
      remove_keeps_node_heap[OF assms(1)]
    by (simp add: set_size_def set_allocated_def)
  then show ?thesis
    using assms(4) unfolding all_used_map by simp
qed

text \<open>
  What \<open>mem_new_alloc\<close> returns: the candidate, or the null pointer in place of a
  candidate that is larger than the request when every record of the arena is in use.
\<close>

definition returns_candidate :: "pool_mgr_t \<Rightarrow> nat \<Rightarrow> node_pt \<Rightarrow> node_pt \<Rightarrow> bool" where
  "returns_candidate pm1 sz a x =
     (x = a \<or>
      (x = NULL \<and> (\<exists>n. rd pm1 a = Some n \<and> u64_sub (node_size n) sz \<noteq> 0) \<and>
       (\<forall>n\<in>set (node_heap pm1). used n \<noteq> 0)))"

lemma mem_new_alloc_post:
  assumes "num_gaps (pool pm) \<noteq> 0"
  shows "post (\<lambda>r. \<exists>pm1 a. mem_resize_node_heap e pm = Some pm1 \<and>
                 select_node pm1 sz = Some a \<and> returns_candidate pm1 sz a (fst r))
           (mem_new_alloc e pm sz)"
  unfolding mem_new_alloc_def Let_def
  apply (rule post_if)
   apply (simp add: assms)
  apply (rule post_bind, rule post_I)
  apply (rule post_bind, rule post_I)
  apply (rule post_if)
  subgoal for pm1 a
    by (rule post_Some) (auto simp: returns_candidate_def)
  apply (rule post_bind, rule post_I)
  apply (rule post_bind, rule post_I)
  apply (rule post_bind, rule post_I)
  apply (rule post_bind, rule post_I)
  apply (rule post_if)
  subgoal premises p for pm1 a s r pm3 pm4
  proof (rule post_I)
    fix res
    assume res: "new_alloc_residual e pm4 a sz (u64_sub s sz) = Some res"
    have n: "\<exists>n. rd pm1 a = Some n \<and> u64_sub (node_size n) sz \<noteq> 0"
      using p(5,9) by (auto simp: fld_def)
    have "\<forall>n\<in>set (node_heap pm1). used n \<noteq> 0" if "\<forall>n\<in>set (node_heap pm4). used n \<noteq> 0"
      using alloc_steps_keep_used[OF p(6,7,8) that] by simp
    then have "returns_candidate pm1 sz a (fst res)"
      using new_alloc_residual_result[OF res] n by (auto simp: returns_candidate_def)
    then show "\<exists>pm1 a. mem_resize_node_heap e pm = Some pm1 \<and>
                 select_node pm1 sz = Some a \<and> returns_candidate pm1 sz a (fst res)"
      using p(2,3) by blast
  qed
  subgoal premises p for pm1 a s r pm3 pm4
    using p(2,3) by (intro post_Some) (auto simp: returns_candidate_def)
  done

lemma mem_new_alloc_result:
  assumes "mem_new_alloc e pm sz = Some (x, pm')" and "num_gaps (pool pm) \<noteq> 0"
  shows "\<exists>pm1 a. mem_resize_node_heap e pm = Some pm1 \<and> select_node pm1 sz = Some a \<and>
           returns_candidate pm1 sz a x"
  using postD[OF mem_new_alloc_post[OF assms(2)] assms(1)] by simp







subsection \<open>Releasing a segment twice\<close>

text \<open>
  \<open>mem_del_alloc\<close> has no test of its handle. The lemmas say when its parts do
  nothing or succeed: the sort pass and \<open>_mem_add_to_gap_ix\<close> return when the entries
  they compare refer to records of the arena and the gap index has room; the two merge
  steps leave the manager as it is when the neighbour is the null pointer or an allocated
  record (\<open>no_gap_at\<close>). The sort pass only swaps neighbours among the entries up to its
  start position. \<open>live_gaps\<close> are the first \<open>num_gaps\<close> cells of the gap index.
\<close>

definition live_gaps :: "pool_mgr_t \<Rightarrow> gap_t list" where
  "live_gaps pm = take (num_gaps (pool pm)) (gap_ix pm)"

lemma sort_loop_total:
  "i < length g \<Longrightarrow> \<forall>j\<le>i. node_at h (gap_node (g ! j)) \<noteq> None \<Longrightarrow>
   \<exists>g'. sort_loop h g i = Some g' \<and> length g' = length g"
proof (induction i arbitrary: g)
  case 0
  then show ?case by (subst sort_loop.simps) simp
next
  case (Suc i)
  have len: "length (swap_gaps g (Suc i)) = length g"
    by (simp add: swap_gaps_def)
  have v: "\<forall>j\<le>i. node_at h (gap_node (swap_gaps g (Suc i) ! j)) \<noteq> None"
  proof (intro allI impI)
    fix j assume "j \<le> i"
    then show "node_at h (gap_node (swap_gaps g (Suc i) ! j)) \<noteq> None"
      using Suc.prems by (cases "j = i") (auto simp: swap_gaps_def nth_list_update)
  qed
  have swapped: "\<exists>g'. sort_loop h (swap_gaps g (Suc i)) i = Some g' \<and> length g' = length g"
    using Suc.IH[of "swap_gaps g (Suc i)"] Suc.prems(1) v len by simp
  have kept: "\<exists>g'. sort_loop h g i = Some g' \<and> length g' = length g"
    using Suc.IH[of g] Suc.prems by simp
  obtain ni np where n: "node_at h (gap_node (g ! Suc i)) = Some ni"
      "node_at h (gap_node (g ! i)) = Some np"
    using Suc.prems(2) by (metis le_Suc_eq not_None_eq order_refl)
  show ?case
    using Suc.prems(1) swapped kept n by (subst sort_loop.simps) simp
qed

lemma sort_loop_mset:
  "sort_loop h g i = Some g' \<Longrightarrow> i < length g \<Longrightarrow>
   mset g' = mset g \<and> length g' = length g \<and> drop (Suc i) g' = drop (Suc i) g"
proof (induction i arbitrary: g)
  case 0
  then show ?case by (subst (asm) sort_loop.simps) simp
next
  case (Suc i)
  let ?s = "swap_gaps g (Suc i)"
  have sw: "mset ?s = mset g" "length ?s = length g"
      "drop (Suc (Suc i)) ?s = drop (Suc (Suc i)) g"
    using Suc.prems(2) by (simp_all add: swap_gaps_def mset_swap)
  have "sort_loop h ?s i = Some g' \<or> sort_loop h g i = Some g'"
    using Suc.prems by (subst (asm) sort_loop.simps) (auto split: if_splits option.splits)
  then show ?case
  proof
    assume "sort_loop h ?s i = Some g'"
    then have "mset g' = mset ?s \<and> length g' = length ?s \<and> drop (Suc i) g' = drop (Suc i) ?s"
      using Suc.IH[of ?s] Suc.prems(2) sw(2) by simp
    then have "mset g' = mset g \<and> length g' = length g \<and>
        tl (drop (Suc i) g') = tl (drop (Suc i) ?s)"
      using sw by simp
    then show ?thesis using sw(3) by (simp add: drop_Suc tl_drop)
  next
    assume "sort_loop h g i = Some g'"
    then have "mset g' = mset g \<and> length g' = length g \<and>
        tl (drop (Suc i) g') = tl (drop (Suc i) g)"
      using Suc.IH[of g] Suc.prems(2) by simp
    then show ?thesis by (simp add: drop_Suc tl_drop)
  qed
qed

lemma mset_take_cancel:
  assumes "mset g' = mset g" and "drop n g' = drop n g"
  shows "mset (take n g') = mset (take n g)"
proof -
  have "mset (take n g') + mset (drop n g') = mset (take n g) + mset (drop n g)"
    using assms(1) by (metis append_take_drop_id mset_append)
  then show ?thesis using assms(2) by simp
qed

lemma add_to_gap_ix_total:
  assumes room: "num_gaps (pool pm) < gap_ix_capacity pm"
      and cap: "gap_ix_capacity pm \<le> 2147483648"
      and k: "k < total_nodes pm"
      and live: "\<forall>j<num_gaps (pool pm). node_at (arena pm) (gap_node (gap_ix pm ! j)) \<noteq> None"
  shows "\<exists>pm'. mem_add_to_gap_ix e pm sz (Node (heap_at pm + k)) = Some (ALLOC_OK, pm') \<and>
           node_heap pm' = node_heap pm \<and> heap_at pm' = heap_at pm \<and>
           used_nodes pm' = used_nodes pm \<and>
           pool pm' = (pool pm)\<lparr>num_gaps := num_gaps (pool pm) + 1\<rparr> \<and>
           length (gap_ix pm') = length (gap_ix pm) \<and>
           mset (take (num_gaps (pool pm) + 1) (gap_ix pm')) =
             add_mset \<lparr>gap_size = sz, gap_node = Node (heap_at pm + k)\<rparr>
               (mset (take (num_gaps (pool pm)) (gap_ix pm))) \<and>
           drop (num_gaps (pool pm) + 1) (gap_ix pm') = drop (num_gaps (pool pm) + 1) (gap_ix pm)"
proof -
  let ?n = "num_gaps (pool pm)"
  let ?new = "\<lparr>gap_size = sz, gap_node = Node (heap_at pm + k)\<rparr>"
  let ?g = "(gap_ix pm)[?n := ?new]"
  have r: "mem_resize_gap_ix e pm = Some pm"
    using room by (intro resize_gap_ix_below) auto
  have n: "?n < length (gap_ix pm)" "u32 (?n + 1) = ?n + 1" "u32_dec (?n + 1) = ?n"
      "\<not> 2147483648 \<le> ?n"
    using room cap by (auto simp: gap_ix_capacity_def u32_def u32_dec_def)
  have new: "node_at (arena pm) (Node (heap_at pm + k)) \<noteq> None"
    using k by (simp add: node_at_def slot_Node total_nodes_def)
  have "\<forall>j\<le>?n. node_at (arena pm) (gap_node (?g ! j)) \<noteq> None"
    using live new n(1) by (auto simp: nth_list_update)
  then obtain g' where g': "sort_loop (arena pm) ?g ?n = Some g'" "length g' = length ?g"
    using sort_loop_total[of ?n ?g "arena pm"] n(1) by auto
  have m: "mset g' = mset ?g" "drop (Suc ?n) g' = drop (Suc ?n) ?g"
    using sort_loop_mset[OF g'(1)] n(1) by simp_all
  have "mset (take (Suc ?n) g') = mset (take (Suc ?n) ?g)"
    using mset_take_cancel[OF m] .
  moreover have "take (Suc ?n) ?g = take ?n (gap_ix pm) @ [?new]"
    using n(1) by (simp add: take_Suc_conv_app_nth)
  ultimately have ms: "mset (take (Suc ?n) g') = add_mset ?new (mset (take ?n (gap_ix pm)))"
    by simp
  have dr: "drop (Suc ?n) g' = drop (Suc ?n) (gap_ix pm)"
    using m(2) by simp
  have "mem_add_to_gap_ix e pm sz (Node (heap_at pm + k)) = Some (ALLOC_OK, pm\<lparr>pool :=
      (pool pm)\<lparr>num_gaps := ?n + 1\<rparr>, gap_ix := g'\<rparr>)"
    using r n g' room
    by (simp add: mem_add_to_gap_ix_def mem_sort_gap_ix_def Let_def arena_def)
  then show ?thesis
    using g'(2) ms dr by simp
qed

definition no_gap_at :: "pool_mgr_t \<Rightarrow> node_pt \<Rightarrow> bool" where
  "no_gap_at pm p =
     (p = NULL \<or> (case rd pm p of None \<Rightarrow> False | Some n \<Rightarrow> allocated n \<noteq> 0))"

lemma del_forward_no_gap:
  assumes "k < total_nodes pm" and "no_gap_at pm (next_n (node_heap pm ! k))"
  shows "del_forward e pm (Node (heap_at pm + k)) = Some pm"
proof -
  let ?nx = "next_n (node_heap pm ! k)"
  have n: "fld next_n pm (Node (heap_at pm + k)) = Some ?nx"
    using assms(1) by (simp add: fld_Node total_nodes_def)
  show ?thesis
  proof (cases "?nx = NULL")
    case True
    then show ?thesis using n by (simp add: del_forward_def)
  next
    case False
    then obtain x where "rd pm ?nx = Some x" "allocated x \<noteq> 0"
      using assms(2) by (auto simp: no_gap_at_def split: option.splits)
    then have "fld allocated pm ?nx = Some (allocated x)" "allocated x \<noteq> 0"
      by (simp_all add: fld_def)
    then show ?thesis using n False by (simp add: del_forward_def)
  qed
qed

lemma del_backward_no_gap:
  assumes "k < total_nodes pm" and "no_gap_at pm (prev_n (node_heap pm ! k))"
  shows "del_backward e pm (Node (heap_at pm + k)) =
           Some (ALLOC_OK, pm, Node (heap_at pm + k))"
proof -
  let ?pv = "prev_n (node_heap pm ! k)"
  have n: "fld prev_n pm (Node (heap_at pm + k)) = Some ?pv"
    using assms(1) by (simp add: fld_Node total_nodes_def)
  show ?thesis
  proof (cases "?pv = NULL")
    case True
    then show ?thesis using n by (simp add: del_backward_def)
  next
    case False
    then obtain x where "rd pm ?pv = Some x" "allocated x \<noteq> 0"
      using assms(2) by (auto simp: no_gap_at_def split: option.splits)
    then have "fld allocated pm ?pv = Some (allocated x)" "allocated x \<noteq> 0"
      by (simp_all add: fld_def)
    then show ?thesis using n False by (simp add: del_backward_def)
  qed
qed

text \<open>
  C5, as amended. \<open>mem_del_alloc\<close> does not check its handle and has no status for
  an invalid handle. Take a handle \<open>&node_heap[k]\<close> that refers to a segment of the
  pool that is already released: a record with \<open>allocated = 0\<close> whose neighbours in
  the list are the null pointer or allocated records, in a pool whose gap index has room
  for one more entry (\<open>num_gaps < gap_ix_capacity \<le> 2^31\<close>) and whose live entries
  all refer to records of the arena. The call returns \<open>ALLOC_OK\<close> and changes the
  pool: \<open>num_allocs\<close> is decremented (from 0 it wraps around), \<open>alloc_size\<close> is
  reduced by the size of the segment (wrapping around), \<open>num_gaps\<close> grows by one, and
  the live part of the gap index holds the entries it held before and one more entry
  with the size of the segment and the handle. The node heap and the cells of the gap
  index behind the live part stay as they are.
\<close>

theorem C5_release_of_released_segment:
  assumes k: "k < total_nodes pm" and released: "allocated (node_heap pm ! k) = 0"
      and nx: "no_gap_at pm (next_n (node_heap pm ! k))"
      and pv: "no_gap_at pm (prev_n (node_heap pm ! k))"
      and room: "num_gaps (pool pm) < gap_ix_capacity pm"
      and cap: "gap_ix_capacity pm \<le> 2147483648"
      and live: "\<forall>j<num_gaps (pool pm). rd pm (gap_node (gap_ix pm ! j)) \<noteq> None"
  shows "\<exists>pm'. mem_del_alloc e pm (Node (heap_at pm + k)) = Some (ALLOC_OK, pm') \<and>
           num_allocs (pool pm') = u32_dec (num_allocs (pool pm)) \<and>
           alloc_size (pool pm') = u64_sub (alloc_size (pool pm)) (node_size (node_heap pm ! k)) \<and>
           num_gaps (pool pm') = num_gaps (pool pm) + 1 \<and>
           mset (live_gaps pm') =
             add_mset \<lparr>gap_size = node_size (node_heap pm ! k), gap_node = Node (heap_at pm + k)\<rparr>
               (mset (live_gaps pm)) \<and>
           drop (num_gaps (pool pm')) (gap_ix pm') = drop (num_gaps (pool pm')) (gap_ix pm) \<and>
           node_heap pm' = node_heap pm \<and> heap_at pm' = heap_at pm"
proof -
  define pm2 where "pm2 = pm\<lparr>pool := (pool pm)\<lparr>num_allocs := u32_dec (num_allocs (pool pm)),
       alloc_size := u64_sub (alloc_size (pool pm)) (node_size (node_heap pm ! k))\<rparr>\<rparr>"
  let ?h = "Node (heap_at pm + k)"
  have same: "set_allocated 0 (node_heap pm ! k) = node_heap pm ! k"
    using released by (simp add: set_allocated_def)
  have w: "wr ?h (set_allocated 0) pm = Some pm"
    using k by (simp add: wr_Node total_nodes_def same)
  have h2: "node_heap pm2 = node_heap pm" "total_nodes pm2 = total_nodes pm"
      "gap_ix pm2 = gap_ix pm" "gap_ix_capacity pm2 = gap_ix_capacity pm"
      "num_gaps (pool pm2) = num_gaps (pool pm)" "heap_at pm2 = heap_at pm"
      "arena pm2 = arena pm"
    by (simp_all add: pm2_def total_nodes_def gap_ix_capacity_def arena_def)
  have n2: "no_gap_at pm2 p = no_gap_at pm p" for p
    by (simp add: no_gap_at_def pm2_def)
  have f: "del_forward e pm2 ?h = Some pm2"
    using k nx del_forward_no_gap[of k pm2 e] by (simp add: h2 n2)
  have b: "del_backward e pm2 ?h = Some (ALLOC_OK, pm2, ?h)"
    using k pv del_backward_no_gap[of k pm2 e] by (simp add: h2 n2)
  have l2: "\<forall>j<num_gaps (pool pm2). node_at (arena pm2) (gap_node (gap_ix pm2 ! j)) \<noteq> None"
    using live by (simp add: h2 rd_def)
  obtain pm' where a: "mem_add_to_gap_ix e pm2 (node_size (node_heap pm ! k)) ?h = Some (ALLOC_OK, pm')"
      "node_heap pm' = node_heap pm2" "heap_at pm' = heap_at pm2"
      "pool pm' = (pool pm2)\<lparr>num_gaps := num_gaps (pool pm2) + 1\<rparr>"
      "mset (take (num_gaps (pool pm2) + 1) (gap_ix pm')) =
         add_mset \<lparr>gap_size = node_size (node_heap pm ! k), gap_node = ?h\<rparr>
           (mset (take (num_gaps (pool pm2)) (gap_ix pm2)))"
      "drop (num_gaps (pool pm2) + 1) (gap_ix pm') = drop (num_gaps (pool pm2) + 1) (gap_ix pm2)"
    using add_to_gap_ix_total[of pm2 k e "node_size (node_heap pm ! k)", OF _ _ _ l2] k room cap
    by (auto simp: h2)
  have "mem_del_alloc e pm ?h = Some (ALLOC_OK, pm')"
    using w f b a(1) k
    by (simp add: mem_del_alloc_def Let_def fld_Node total_nodes_def pm2_def)
  then show ?thesis
    using a(2-6) by (simp add: h2 live_gaps_def) (simp add: pm2_def)
qed

text \<open>
  C5 as stated fails in a pool of 100 bytes: after an allocation of 30 bytes and its
  release the pool is as it was when opened, and record 0 is a gap. The second release of
  the same handle returns \<open>ALLOC_OK\<close>; \<open>num_allocs\<close> wraps around from 0 to
  \<open>2^32 - 1\<close>, \<open>alloc_size\<close> from 0 to \<open>2^64 - 100\<close>, and the gap index holds
  the entry of record 0 twice.
\<close>

definition pool_100 :: pool_mgr_t where
  "pool_100 = mem_pool_open_mgr 5000 100 FIRST_FIT"

theorem C5_second_release_accepted:
  "calls zero_env pool_100 [Alloc 30 (Node 0), Release (Node 0) ALLOC_OK] = Some pool_100 \<and>
   allocated (node_heap pool_100 ! 0) = 0 \<and>
   (num_allocs (pool pool_100), alloc_size (pool pool_100), num_gaps (pool pool_100),
      take 2 (gap_ix pool_100))
     = (0, 0, 1, [\<lparr>gap_size = 100, gap_node = Node 0\<rparr>, zero_gap]) \<and>
   map_option (\<lambda>r. (fst r, num_allocs (pool (snd r)), alloc_size (pool (snd r)),
                     num_gaps (pool (snd r)), take 2 (gap_ix (snd r))))
     (mem_del_alloc zero_env pool_100 (Node 0))
     = Some (ALLOC_OK, 4294967295, 18446744073709551516, 2,
             [\<lparr>gap_size = 100, gap_node = Node 0\<rparr>, \<lparr>gap_size = 100, gap_node = Node 0\<rparr>])"
  by code_simp

text \<open>C5, as amended, at the pool of 100 bytes and the handle of record 0.\<close>

theorem C5_release_of_released_segment_witness:
  "\<exists>pm'. mem_del_alloc zero_env pool_100 (Node 0) = Some (ALLOC_OK, pm') \<and>
     num_allocs (pool pm') = 4294967295 \<and> alloc_size (pool pm') = 18446744073709551516 \<and>
     num_gaps (pool pm') = 2 \<and>
     mset (live_gaps pm') =
       {#\<lparr>gap_size = 100, gap_node = Node 0\<rparr>, \<lparr>gap_size = 100, gap_node = Node 0\<rparr>#} \<and>
     node_heap pm' = node_heap pool_100"
proof -
  have h: "node_heap pool_100 ! 0 = \<lparr>alloc_record = \<lparr>rec_size = 100, rec_mem = 5000\<rparr>, used = 1,
      allocated = 0, next_n = NULL, prev_n = NULL\<rparr>"
    by (simp add: pool_100_def mem_pool_open_mgr_def MEM_NODE_HEAP_INIT_CAPACITY_def)
  have t: "total_nodes pool_100 = 40" "gap_ix_capacity pool_100 = 40"
      "num_gaps (pool pool_100) = 1" "num_allocs (pool pool_100) = 0"
      "alloc_size (pool pool_100) = 0" "heap_at pool_100 = 0"
    by (simp_all add: pool_100_def mem_pool_open_mgr_def total_nodes_def gap_ix_capacity_def
        MEM_NODE_HEAP_INIT_CAPACITY_def MEM_GAP_IX_INIT_CAPACITY_def)
  have g: "gap_ix pool_100 ! 0 = \<lparr>gap_size = 100, gap_node = Node 0\<rparr>"
    by (simp add: pool_100_def mem_pool_open_mgr_def MEM_GAP_IX_INIT_CAPACITY_def)
  have lg: "live_gaps pool_100 = [\<lparr>gap_size = 100, gap_node = Node 0\<rparr>]"
    by code_simp
  have "rd pool_100 (Node (heap_at pool_100 + 0)) \<noteq> None"
    by (subst rd_Node[OF refl]) (simp_all add: t(1)[unfolded total_nodes_def])
  then have l: "\<forall>j<num_gaps (pool pool_100). rd pool_100 (gap_node (gap_ix pool_100 ! j)) \<noteq> None"
    using t g by simp
  show ?thesis
    using C5_release_of_released_segment[of 0 pool_100 zero_env, OF _ _ _ _ _ _ l] t h lg
    by (auto simp: no_gap_at_def u32_dec_def u64_sub_def node_size_def numeral_2_eq_2)
qed

subsection \<open>Best-fit walks the gap index\<close>

text \<open>
  \<open>gap_ix_sorted\<close> is the sort invariant: the live entries are ordered by size and,
  within equal size, by the base of the referenced segment. \<open>gap_ix_exact\<close> says that
  the live entries are the gaps: every used record that is not allocated has an entry
  with its size, and every entry refers to such a record and carries its size.
\<close>

definition gap_ix_sorted :: "pool_mgr_t \<Rightarrow> bool" where
  "gap_ix_sorted pm = sorted_wrt (gap_le (arena pm)) (live_gaps pm)"

definition is_gap :: "node_t \<Rightarrow> bool" where
  "is_gap n = (used n \<noteq> 0 \<and> allocated n = 0)"

definition gap_ix_exact :: "pool_mgr_t \<Rightarrow> bool" where
  "gap_ix_exact pm =
     (list_all (\<lambda>k. is_gap (node_heap pm ! k) \<longrightarrow>
                  \<lparr>gap_size = node_size (node_heap pm ! k), gap_node = Node (heap_at pm + k)\<rparr>
                    \<in> set (live_gaps pm))
        [0..<length (node_heap pm)] \<and>
      list_all (\<lambda>g. case slot (arena pm) (gap_node g) of
                       None \<Rightarrow> False
                     | Some k \<Rightarrow> is_gap (node_heap pm ! k) \<and>
                         gap_size g = node_size (node_heap pm ! k))
        (live_gaps pm))"

lemma slot_SomeD:
  "slot (arena pm) p = Some k \<Longrightarrow> p = Node (heap_at pm + k) \<and> k < length (node_heap pm)"
  by (auto simp: slot_def arena_def split: node_pt.splits if_splits)

lemma gap_base_Node:
  "k < length (node_heap pm) \<Longrightarrow> gap_node g = Node (heap_at pm + k) \<Longrightarrow>
   gap_base (arena pm) g = node_mem (node_heap pm ! k)"
  by (simp add: gap_base_def node_at_def slot_Node) (simp add: arena_def)

lemma bf_scan_first:
  "j < length g \<Longrightarrow> sz \<le> gap_size (g ! j) \<Longrightarrow> \<forall>i<j. gap_size (g ! i) < sz \<Longrightarrow>
   bf_scan g sz a = gap_node (g ! j)"
proof (induction g arbitrary: j)
  case Nil
  then show ?case by simp
next
  case (Cons x xs)
  show ?case
  proof (cases j)
    case 0
    with Cons.prems show ?thesis by simp
  next
    case (Suc q)
    have "\<not> sz \<le> gap_size x" using Cons.prems(3) Suc by fastforce
    moreover have "bf_scan xs sz a = gap_node (xs ! q)"
      using Cons.prems Suc by (intro Cons.IH) auto
    ultimately show ?thesis using Suc by simp
  qed
qed

lemma best_fit_first:
  assumes "j < gap_ix_capacity pm" and "sz \<le> gap_size (gap_ix pm ! j)"
      and "\<forall>i<j. gap_size (gap_ix pm ! i) < sz"
  shows "best_fit pm sz = gap_node (gap_ix pm ! j)"
  using assms bf_scan_first[of j "gap_ix pm" sz NULL]
  by (simp add: best_fit_def best_fit_loop_scan gap_ix_capacity_def)

lemma gap_le_refl: "gap_le h a a"
  by (simp add: gap_le_def)

text \<open>
  C2. Under best-fit, in a pool whose gap index is sorted and holds the gaps, and for a
  request that some gap fits: \<open>mem_new_alloc\<close> selects the first entry of the gap
  index with \<open>size \<ge> request\<close> (it returns the record of this entry, or the null
  pointer when no unused record is left for the remainder); the record of this entry is a
  gap that fits, no gap that fits is smaller, and among the gaps of the same size that
  fit none has a lower base.
\<close>

theorem C2_best_fit_smallest_gap:
  assumes pol: "policy (pool pm) = BEST_FIT"
      and sorted: "gap_ix_sorted pm"
      and exact: "gap_ix_exact pm"
      and n: "num_gaps (pool pm) \<le> gap_ix_capacity pm"
      and fit: "k0 < total_nodes pm" "fits sz (node_heap pm ! k0)"
  shows "\<exists>j a. j < num_gaps (pool pm) \<and> sz \<le> gap_size (gap_ix pm ! j) \<and>
           (\<forall>i<j. gap_size (gap_ix pm ! i) < sz) \<and>
           gap_node (gap_ix pm ! j) = Node (heap_at pm + a) \<and>
           select_node pm sz = Some (Node (heap_at pm + a)) \<and>
           (\<forall>x pm'. mem_new_alloc e pm sz = Some (x, pm') \<longrightarrow>
              x = Node (heap_at pm + a) \<or> x = NULL) \<and>
           a < total_nodes pm \<and> fits sz (node_heap pm ! a) \<and>
           (\<forall>k<total_nodes pm. fits sz (node_heap pm ! k) \<longrightarrow>
              node_size (node_heap pm ! a) < node_size (node_heap pm ! k) \<or>
              (node_size (node_heap pm ! a) = node_size (node_heap pm ! k) \<and>
               node_mem (node_heap pm ! a) \<le> node_mem (node_heap pm ! k)))"
proof -
  let ?h = "node_heap pm" and ?g = "gap_ix pm" and ?n = "num_gaps (pool pm)"
  let ?b = "heap_at pm"
  have len: "length (live_gaps pm) = ?n"
    using n by (simp add: live_gaps_def gap_ix_capacity_def)
  have nth: "live_gaps pm ! i = ?g ! i" if "i < ?n" for i
    using that by (simp add: live_gaps_def)
  \<comment> \<open>every gap record has an entry, every entry refers to a gap record\<close>
  have entry: "\<exists>i<?n. ?g ! i = \<lparr>gap_size = node_size (?h ! k), gap_node = Node (?b + k)\<rparr>"
    if "k < total_nodes pm" "is_gap (?h ! k)" for k
  proof -
    have "\<lparr>gap_size = node_size (?h ! k), gap_node = Node (?b + k)\<rparr> \<in> set (live_gaps pm)"
      using exact that by (auto simp: gap_ix_exact_def list_all_iff total_nodes_def)
    then show ?thesis
      using len nth by (metis in_set_conv_nth)
  qed
  have refers: "\<exists>k<total_nodes pm. gap_node (?g ! i) = Node (?b + k) \<and> is_gap (?h ! k) \<and>
      gap_size (?g ! i) = node_size (?h ! k)" if "i < ?n" for i
  proof -
    have "?g ! i \<in> set (live_gaps pm)"
      using that len nth by (metis nth_mem)
    then have "case slot (arena pm) (gap_node (?g ! i)) of
                 None \<Rightarrow> False
               | Some k \<Rightarrow> is_gap (?h ! k) \<and> gap_size (?g ! i) = node_size (?h ! k)"
      using exact by (simp add: gap_ix_exact_def list_all_iff)
    then obtain k where "slot (arena pm) (gap_node (?g ! i)) = Some k" "is_gap (?h ! k)"
        "gap_size (?g ! i) = node_size (?h ! k)"
      by (auto split: option.splits)
    then show ?thesis
      using slot_SomeD[of pm "gap_node (?g ! i)" k] by (auto simp: total_nodes_def)
  qed
  \<comment> \<open>the first entry that fits\<close>
  have gap0: "is_gap (?h ! k0)" "sz \<le> node_size (?h ! k0)"
    using fit(2) by (simp_all add: fits_def is_gap_def)
  obtain i0 where i0: "i0 < ?n" "sz \<le> gap_size (?g ! i0)"
    using entry[OF fit(1) gap0(1)] gap0(2) by auto
  define j where "j = (LEAST i. i < ?n \<and> sz \<le> gap_size (?g ! i))"
  have j: "j < ?n" "sz \<le> gap_size (?g ! j)"
    using LeastI[of "\<lambda>i. i < ?n \<and> sz \<le> gap_size (?g ! i)" i0] i0 by (simp_all add: j_def)
  have first: "gap_size (?g ! i) < sz" if "i < j" for i
    using not_less_Least[of i "\<lambda>i. i < ?n \<and> sz \<le> gap_size (?g ! i)"] that j(1)
    by (auto simp: j_def)
  have least: "j \<le> i" if "i < ?n" "sz \<le> gap_size (?g ! i)" for i
    using that first by (meson not_le_imp_less not_less)
  obtain a where a: "a < total_nodes pm" "gap_node (?g ! j) = Node (?b + a)" "is_gap (?h ! a)"
      "gap_size (?g ! j) = node_size (?h ! a)"
    using refers[OF j(1)] by auto
  have sel: "select_node pm sz = Some (Node (?b + a))"
    using pol best_fit_first[of j pm sz] j n first a(2) by (simp add: select_node_def)
  have ret: "x = Node (?b + a) \<or> x = NULL" if m: "mem_new_alloc e pm sz = Some (x, pm')" for x pm'
  proof -
    have "?n \<noteq> 0" using j(1) by simp
    then obtain pm1 c where r: "mem_resize_node_heap e pm = Some pm1"
        "select_node pm1 sz = Some c" "x = c \<or> x = NULL"
      using mem_new_alloc_result[OF m] by (auto simp: returns_candidate_def)
    have "pool pm1 = pool pm" "gap_ix pm1 = gap_ix pm"
      using r(1) by (auto simp: mem_resize_node_heap_def Let_def split: if_splits)
    then have "select_node pm1 sz = select_node pm sz"
      using pol by (simp add: select_node_def best_fit_def)
    then show ?thesis using r(2,3) sel by auto
  qed
  have fa: "fits sz (?h ! a)"
    using a(3,4) j(2) by (simp add: fits_def is_gap_def)
  have smallest: "node_size (?h ! a) < node_size (?h ! k) \<or>
      (node_size (?h ! a) = node_size (?h ! k) \<and> node_mem (?h ! a) \<le> node_mem (?h ! k))"
    if k: "k < total_nodes pm" "fits sz (?h ! k)" for k
  proof -
    have "is_gap (?h ! k)" "sz \<le> node_size (?h ! k)"
      using k(2) by (simp_all add: fits_def is_gap_def)
    then obtain i where i: "i < ?n"
        "?g ! i = \<lparr>gap_size = node_size (?h ! k), gap_node = Node (?b + k)\<rparr>"
      using entry[OF k(1)] by auto
    have "j \<le> i" using least[of i] i \<open>sz \<le> node_size (?h ! k)\<close> by simp
    have "gap_le (arena pm) (?g ! j) (?g ! i)"
    proof (cases "j = i")
      case True
      then show ?thesis by (simp add: gap_le_refl)
    next
      case False
      then have "j < i" using \<open>j \<le> i\<close> by simp
      then have "gap_le (arena pm) (live_gaps pm ! j) (live_gaps pm ! i)"
        using sorted i(1) len by (simp add: gap_ix_sorted_def sorted_wrt_nth_less)
      then show ?thesis using nth i(1) j(1) by simp
    qed
    moreover have "gap_base (arena pm) (?g ! j) = node_mem (?h ! a)"
      using a(1,2) by (intro gap_base_Node) (simp_all add: total_nodes_def)
    moreover have "gap_base (arena pm) (?g ! i) = node_mem (?h ! k)"
      using k(1) i(2) by (intro gap_base_Node) (simp_all add: total_nodes_def)
    ultimately show ?thesis
      using i(2) a(4) by (simp add: gap_le_def)
  qed
  show ?thesis
    using j first a sel ret fa smallest by blast
qed

text \<open>
  A pool of 100 bytes under best-fit with the gaps of scenario 5 of the specification:
  allocations of 30, 30 and 40 bytes, then the release of the first and of the third.
\<close>

definition best_fit_calls :: "call list" where
  "best_fit_calls =
     [Alloc 30 (Node 0), Alloc 30 (Node 1), Alloc 40 (Node 2), Release (Node 0) ALLOC_OK,
      Release (Node 2) ALLOC_OK]"

definition two_gap_pool :: pool_mgr_t where
  "two_gap_pool =
     \<lparr>pool = \<lparr>pool_mem = 5000, policy = BEST_FIT, total_size = 100, alloc_size = 30,
              num_allocs = 1, num_gaps = 2\<rparr>,
      heap_at = 0,
      node_heap =
        [\<lparr>alloc_record = \<lparr>rec_size = 30, rec_mem = 5000\<rparr>, used = 1, allocated = 0,
           next_n = Node 1, prev_n = NULL\<rparr>,
         \<lparr>alloc_record = \<lparr>rec_size = 30, rec_mem = 5030\<rparr>, used = 1, allocated = 1,
           next_n = Node 2, prev_n = Node 0\<rparr>,
         \<lparr>alloc_record = \<lparr>rec_size = 40, rec_mem = 5060\<rparr>, used = 1, allocated = 0,
           next_n = NULL, prev_n = Node 1\<rparr>]
        @ replicate 37 zero_node,
      used_nodes = 3,
      gap_ix = [\<lparr>gap_size = 30, gap_node = Node 0\<rparr>, \<lparr>gap_size = 40, gap_node = Node 2\<rparr>]
        @ replicate 38 zero_gap\<rparr>"

lemma reach_two_gap_pool:
  "calls zero_env (mem_pool_open_mgr 5000 100 BEST_FIT) best_fit_calls = Some two_gap_pool"
  by code_simp

lemma two_gap_pool_at_rest: "at_rest two_gap_pool"
  by code_simp

text \<open>
  C2 at \<open>two_gap_pool\<close>: a request of 35 bytes selects the gap of 40 bytes in record
  2, the only gap that fits; a request of 25 bytes, which both gaps fit, selects the gap
  of 30 bytes in record 0.
\<close>

theorem C2_best_fit_smallest_gap_witness:
  "select_node two_gap_pool 35 = Some (Node 2) \<and>
   map_option fst (mem_new_alloc zero_env two_gap_pool 35) = Some (Node 2) \<and>
   fits 35 (node_heap two_gap_pool ! 2) \<and> \<not> fits 35 (node_heap two_gap_pool ! 0) \<and>
   select_node two_gap_pool 25 = Some (Node 0) \<and>
   fits 25 (node_heap two_gap_pool ! 2) \<and> fits 25 (node_heap two_gap_pool ! 0)"
proof -
  have 1: "policy (pool two_gap_pool) = BEST_FIT" "gap_ix_sorted two_gap_pool"
      "gap_ix_exact two_gap_pool" "num_gaps (pool two_gap_pool) \<le> gap_ix_capacity two_gap_pool"
      "2 < total_nodes two_gap_pool"
    by code_simp+
  have 2: "fits 35 (node_heap two_gap_pool ! 2)" "fits 25 (node_heap two_gap_pool ! 2)"
      "fits 25 (node_heap two_gap_pool ! 0)" "\<not> fits 35 (node_heap two_gap_pool ! 0)"
    by code_simp+
  have e: "map_option fst (mem_new_alloc zero_env two_gap_pool 35) = Some (Node 2)"
    by code_simp
  have g: "gap_ix two_gap_pool ! 0 = \<lparr>gap_size = 30, gap_node = Node 0\<rparr>"
      "gap_ix two_gap_pool ! 1 = \<lparr>gap_size = 40, gap_node = Node 2\<rparr>"
      "num_gaps (pool two_gap_pool) = 2"
    by (simp_all add: two_gap_pool_def)
  have j: "j = 0 \<or> j = 1" if "j < 2" for j :: nat
    using that by arith
  have z: "heap_at two_gap_pool = 0"
    by (simp add: two_gap_pool_def)
  obtain j a where a: "j < num_gaps (pool two_gap_pool)" "35 \<le> gap_size (gap_ix two_gap_pool ! j)"
      "gap_node (gap_ix two_gap_pool ! j) = Node a" "select_node two_gap_pool 35 = Some (Node a)"
    using C2_best_fit_smallest_gap[OF 1(1,2,3,4,5) 2(1), of zero_env] unfolding z by auto
  have "j = 1" using a(1,2) g j[of j] by auto
  then have s35: "select_node two_gap_pool 35 = Some (Node 2)"
    using a(3,4) g by simp
  obtain j' a' where a': "j' < num_gaps (pool two_gap_pool)"
      "\<forall>i<j'. gap_size (gap_ix two_gap_pool ! i) < 25"
      "gap_node (gap_ix two_gap_pool ! j') = Node a'" "select_node two_gap_pool 25 = Some (Node a')"
    using C2_best_fit_smallest_gap[OF 1(1,2,3,4,5) 2(2), of zero_env] unfolding z by auto
  have "j' = 0" using a'(1,2) g j[of j'] by auto
  then have s25: "select_node two_gap_pool 25 = Some (Node 0)"
    using a'(3,4) g by simp
  show ?thesis
    using s35 s25 e 2 by simp
qed

subsection \<open>Record 0 as long as the node heap does not grow\<close>

text \<open>
  Arena record 0 as the head of the segment list: the array is where \<open>calloc\<close> put it
  and is not empty, record 0 is in use, has no predecessor and starts at the base of the
  region, and no record of the arena, in use or not, has record 0 as its \<open>next\<close>.
\<close>

definition head_ok :: "pool_mgr_t \<Rightarrow> bool" where
  "head_ok pm =
     (heap_at pm = 0 \<and> node_heap pm \<noteq> [] \<and> used (node_heap pm ! 0) \<noteq> 0 \<and> prev_n (node_heap pm ! 0) = NULL \<and>
      node_mem (node_heap pm ! 0) = pool_mem (pool pm) \<and>
      (\<forall>n\<in>set (node_heap pm). next_n n \<noteq> Node 0))"

lemma head_ok_cong:
  "node_heap pm' = node_heap pm \<Longrightarrow> heap_at pm' = heap_at pm \<Longrightarrow>
   pool_mem (pool pm') = pool_mem (pool pm) \<Longrightarrow> head_ok pm' = head_ok pm"
  by (simp add: head_ok_def)

lemma wr_head_ok:
  assumes h: "head_ok pm" and w: "wr p f pm = Some pm'"
      and nxt: "\<And>n. next_n n \<noteq> Node 0 \<Longrightarrow> next_n (f n) \<noteq> Node 0"
      and hd: "p = Node 0 \<Longrightarrow> used (f (node_heap pm ! 0)) \<noteq> 0 \<and>
                 prev_n (f (node_heap pm ! 0)) = NULL \<and>
                 node_mem (f (node_heap pm ! 0)) = node_mem (node_heap pm ! 0)"
  shows "head_ok pm'"
proof -
  obtain i where i: "p = Node i" "i < length (node_heap pm)"
      "pm' = pm\<lparr>node_heap := (node_heap pm)[i := f (node_heap pm ! i)]\<rparr>"
    using w h
    by (auto simp: wr_def slot_def arena_def head_ok_def split: option.splits node_pt.splits
        if_splits)
  have "next_n n \<noteq> Node 0" if "n \<in> set ((node_heap pm)[i := f (node_heap pm ! i)])" for n
  proof -
    have "n = f (node_heap pm ! i) \<or> n \<in> set (node_heap pm)"
      using that set_update_subset_insert by fastforce
    moreover have "node_heap pm ! i \<in> set (node_heap pm)" using i(2) by simp
    ultimately show ?thesis using h nxt by (auto simp: head_ok_def)
  qed
  then show ?thesis
    using h i hd by (cases "i = 0") (auto simp: head_ok_def)
qed

lemma wr_size_head_ok: "head_ok pm \<Longrightarrow> wr p (set_size v) pm = Some pm' \<Longrightarrow> head_ok pm'"
  using wr_head_ok[of pm p "set_size v" pm'] by (simp add: set_size_def node_mem_def head_ok_def)

lemma wr_allocated_head_ok:
  "head_ok pm \<Longrightarrow> wr p (set_allocated v) pm = Some pm' \<Longrightarrow> head_ok pm'"
  using wr_head_ok[of pm p "set_allocated v" pm']
  by (simp add: set_allocated_def node_mem_def head_ok_def)

lemma wr_mem_head_ok:
  "head_ok pm \<Longrightarrow> wr p (set_mem v) pm = Some pm' \<Longrightarrow> p \<noteq> Node 0 \<Longrightarrow> head_ok pm'"
  using wr_head_ok[of pm p "set_mem v" pm'] by (simp add: set_mem_def)

lemma wr_used_head_ok:
  "head_ok pm \<Longrightarrow> wr p (set_used v) pm = Some pm' \<Longrightarrow> p \<noteq> Node 0 \<Longrightarrow> head_ok pm'"
  using wr_head_ok[of pm p "set_used v" pm'] by (simp add: set_used_def)

lemma wr_next_head_ok:
  "head_ok pm \<Longrightarrow> wr p (set_next v) pm = Some pm' \<Longrightarrow> v \<noteq> Node 0 \<Longrightarrow> head_ok pm'"
  using wr_head_ok[of pm p "set_next v" pm'] by (simp add: set_next_def node_mem_def head_ok_def)

lemma wr_prev_head_ok:
  "head_ok pm \<Longrightarrow> wr p (set_prev v) pm = Some pm' \<Longrightarrow> p \<noteq> Node 0 \<or> v = NULL \<Longrightarrow> head_ok pm'"
  using wr_head_ok[of pm p "set_prev v" pm']
  by (auto simp: set_prev_def node_mem_def head_ok_def)

lemma fld_next_head_ok: "head_ok pm \<Longrightarrow> fld next_n pm p = Some nx \<Longrightarrow> nx \<noteq> Node 0"
  by (auto simp: fld_def rd_def node_at_def slot_def arena_def head_ok_def
      split: node_pt.splits if_splits)

lemma fld_prev_head_ok:
  assumes "head_ok pm" and "fld prev_n pm p = Some pv" and "pv \<noteq> NULL"
  shows "p \<noteq> Node 0"
proof
  assume "p = Node 0"
  then have "fld prev_n pm p = Some (prev_n (node_heap pm ! 0))"
    using assms(1) fld_Node[of pm 0 0 prev_n] by (simp add: head_ok_def)
  then show False using assms by (simp add: head_ok_def)
qed

lemma fu_scan_Node: "fu_scan h k = Node u \<Longrightarrow> k \<le> u \<and> u < k + length h \<and> used (h ! (u - k)) = 0"
proof (induction h arbitrary: k)
  case Nil
  then show ?case by simp
next
  case (Cons x xs)
  show ?case
  proof (cases "used x = 0")
    case True
    with Cons.prems show ?thesis by simp
  next
    case False
    with Cons.prems have "fu_scan xs (Suc k) = Node u" by simp
    from Cons.IH[OF this] show ?thesis by (auto simp: Suc_diff_le)
  qed
qed

lemma find_unused_head_ok: "head_ok pm \<Longrightarrow> find_unused (arena pm) 0 \<noteq> Node 0"
  using fu_scan_Node[of "node_heap pm" 0 0]
  by (auto simp: find_unused_scan head_ok_def arena_def)

lemma add_keeps_heap:
  "mem_add_to_gap_ix e pm sz n = Some r \<Longrightarrow>
   node_heap (snd r) = node_heap pm \<and> heap_at (snd r) = heap_at pm \<and>
   pool_mem (pool (snd r)) = pool_mem (pool pm)"
  by (auto simp: mem_add_to_gap_ix_def mem_resize_gap_ix_def mem_sort_gap_ix_def Let_def
      split: option.splits if_splits prod.splits)

lemma remove_keeps_pool_mem:
  "mem_remove_from_gap_ix e pm sz n = Some r \<Longrightarrow> pool_mem (pool (snd r)) = pool_mem (pool pm)"
  by (auto simp: mem_remove_from_gap_ix_def Let_def split: option.splits if_splits)

lemma remove_head_ok:
  "head_ok pm \<Longrightarrow> mem_remove_from_gap_ix e pm sz n = Some r \<Longrightarrow> head_ok (snd r)"
  using remove_keeps_node_heap[of e pm sz n r] remove_keeps_pool_mem[of e pm sz n r]
    head_ok_cong[of "snd r" pm] by simp

lemma add_head_ok:
  "head_ok pm \<Longrightarrow> mem_add_to_gap_ix e pm sz n = Some r \<Longrightarrow> head_ok (snd r)"
  using add_keeps_heap[of e pm sz n r] head_ok_cong[of "snd r" pm] by simp

lemma head_ok_used_nodes [simp]: "head_ok (pm\<lparr>used_nodes := v\<rparr>) = head_ok pm"
  by (simp add: head_ok_def)

lemma head_ok_pool [simp]:
  "pool_mem q = pool_mem (pool pm) \<Longrightarrow> head_ok (pm\<lparr>pool := q\<rparr>) = head_ok pm"
  by (simp add: head_ok_def)

lemma post_mono: "post P m \<Longrightarrow> (\<And>r. P r \<Longrightarrow> Q r) \<Longrightarrow> post Q m"
  by (cases m) (simp_all add: post_def)

lemma post_wr_size:
  "head_ok pm \<Longrightarrow> (\<And>pm'. head_ok pm' \<Longrightarrow> Q pm') \<Longrightarrow> post Q (wr p (set_size v) pm)"
  by (cases "wr p (set_size v) pm") (auto simp: post_def dest: wr_size_head_ok)

lemma post_wr_allocated:
  "head_ok pm \<Longrightarrow> (\<And>pm'. head_ok pm' \<Longrightarrow> Q pm') \<Longrightarrow> post Q (wr p (set_allocated v) pm)"
  by (cases "wr p (set_allocated v) pm") (auto simp: post_def dest: wr_allocated_head_ok)

lemma post_wr_mem:
  "head_ok pm \<Longrightarrow> p \<noteq> Node 0 \<Longrightarrow> (\<And>pm'. head_ok pm' \<Longrightarrow> Q pm') \<Longrightarrow>
   post Q (wr p (set_mem v) pm)"
  by (cases "wr p (set_mem v) pm") (auto simp: post_def dest: wr_mem_head_ok)

lemma post_wr_used:
  "head_ok pm \<Longrightarrow> p \<noteq> Node 0 \<Longrightarrow> (\<And>pm'. head_ok pm' \<Longrightarrow> Q pm') \<Longrightarrow>
   post Q (wr p (set_used v) pm)"
  by (cases "wr p (set_used v) pm") (auto simp: post_def dest: wr_used_head_ok)

lemma post_wr_next:
  "head_ok pm \<Longrightarrow> v \<noteq> Node 0 \<Longrightarrow> (\<And>pm'. head_ok pm' \<Longrightarrow> Q pm') \<Longrightarrow>
   post Q (wr p (set_next v) pm)"
  by (cases "wr p (set_next v) pm") (auto simp: post_def dest: wr_next_head_ok)

lemma post_wr_prev:
  "head_ok pm \<Longrightarrow> p \<noteq> Node 0 \<or> v = NULL \<Longrightarrow> (\<And>pm'. head_ok pm' \<Longrightarrow> Q pm') \<Longrightarrow>
   post Q (wr p (set_prev v) pm)"
  by (cases "wr p (set_prev v) pm") (auto simp: post_def dest: wr_prev_head_ok)

lemma post_fld_next:
  "head_ok pm \<Longrightarrow> (\<And>nx. nx \<noteq> Node 0 \<Longrightarrow> Q nx) \<Longrightarrow> post Q (fld next_n pm p)"
  by (cases "fld next_n pm p") (auto simp: post_def dest: fld_next_head_ok)

lemma post_fld_prev:
  "head_ok pm \<Longrightarrow> (\<And>pv. pv = NULL \<or> p \<noteq> Node 0 \<Longrightarrow> Q pv) \<Longrightarrow> post Q (fld prev_n pm p)"
  by (cases "fld prev_n pm p") (auto simp: post_def dest: fld_prev_head_ok)

lemma post_any: "(\<And>y. Q y) \<Longrightarrow> post Q m"
  by (cases m) (simp_all add: post_def)

lemma post_add:
  "head_ok pm \<Longrightarrow> (\<And>r. head_ok (snd r) \<Longrightarrow> Q r) \<Longrightarrow> post Q (mem_add_to_gap_ix e pm sz n)"
  by (cases "mem_add_to_gap_ix e pm sz n") (auto simp: post_def dest: add_head_ok)

lemma post_remove:
  "head_ok pm \<Longrightarrow> (\<And>r. head_ok (snd r) \<Longrightarrow> Q r) \<Longrightarrow>
   post Q (mem_remove_from_gap_ix e pm sz n)"
  by (cases "mem_remove_from_gap_ix e pm sz n") (auto simp: post_def dest: remove_head_ok)

lemmas post_steps =
  post_Some post_bind post_if post_wr_size post_wr_allocated post_wr_mem post_wr_used
  post_wr_next post_wr_prev post_fld_next post_fld_prev post_add post_remove

lemma post_new_alloc_residual:
  assumes "head_ok pm" and "\<And>r. head_ok (snd r) \<Longrightarrow> Q r"
  shows "post Q (new_alloc_residual e pm a sz g)"
proof (rule post_mono[OF _ assms(2)])
  have u: "find_unused (arena pm) 0 \<noteq> Node 0"
    using find_unused_head_ok[OF assms(1)] .
  show "post (\<lambda>r. head_ok (snd r)) (new_alloc_residual e pm a sz g)"
    unfolding new_alloc_residual_def Let_def
    using assms(1) u
    apply -
    apply (rule post_steps post_any | assumption | simp)+
    done
qed

lemma post_resize_below:
  "used_nodes pm < total_nodes pm \<Longrightarrow> Q pm \<Longrightarrow> post Q (mem_resize_node_heap e pm)"
  by (simp add: resize_node_heap_below post_def)

lemma post_mem_new_alloc:
  assumes "head_ok pm" and "used_nodes pm < total_nodes pm"
  shows "post (\<lambda>r. head_ok (snd r)) (mem_new_alloc e pm sz)"
  unfolding mem_new_alloc_def Let_def
  using assms
  apply -
  apply (rule post_steps post_resize_below post_new_alloc_residual post_any
      | assumption | simp)+
  done

lemma post_del_forward:
  assumes "head_ok pm" and "\<And>pm'. head_ok pm' \<Longrightarrow> Q pm'"
  shows "post Q (del_forward e pm d)"
proof (rule post_mono[OF _ assms(2)])
  show "post head_ok (del_forward e pm d)"
    unfolding del_forward_def Let_def
    using assms(1)
    apply -
    apply (rule post_steps post_any | assumption | simp)+
    done
qed

lemma post_del_backward:
  assumes "head_ok pm" and "\<And>b. head_ok (fst (snd b)) \<Longrightarrow> Q b"
  shows "post Q (del_backward e pm d)"
proof (rule post_mono[OF _ assms(2)])
  show "post (\<lambda>b. head_ok (fst (snd b))) (del_backward e pm d)"
    unfolding del_backward_def Let_def
    using assms(1)
    apply -
    apply (rule post_steps post_any | assumption | simp)+
    done
qed

lemma post_mem_del_alloc:
  assumes "head_ok pm"
  shows "post (\<lambda>r. head_ok (snd r)) (mem_del_alloc e pm h)"
  unfolding mem_del_alloc_def Let_def
  using assms
  apply -
  apply (rule post_steps post_del_forward post_del_backward post_any | assumption | simp)+
  done

lemma head_ok_open: "head_ok (mem_pool_open_mgr region sz pol)"
proof -
  let ?x = "\<lparr>alloc_record = \<lparr>rec_size = sz, rec_mem = region\<rparr>, used = 1, allocated = 0,
             next_n = NULL, prev_n = NULL\<rparr>"
  let ?h = "(replicate MEM_NODE_HEAP_INIT_CAPACITY zero_node)[0 := ?x]"
  have "set ?h \<subseteq> insert ?x (set (replicate MEM_NODE_HEAP_INIT_CAPACITY zero_node))"
    by (rule set_update_subset_insert)
  then have "\<forall>n\<in>set ?h. next_n n \<noteq> Node 0"
    by (auto simp: zero_node_def)
  then show ?thesis
    by (simp add: head_ok_def mem_pool_open_mgr_def MEM_NODE_HEAP_INIT_CAPACITY_def node_mem_def)
qed

lemma inspect_loop_keeps:
  "inspect_loop h p i s = Some sg \<Longrightarrow> length sg = length s \<and> (\<forall>j<i. sg ! j = s ! j)"
proof (induction h p i s rule: inspect_loop.induct)
  case (1 h thisNode i sgmts)
  show ?case
  proof (cases "thisNode = NULL")
    case True
    then show ?thesis using "1.prems" by (simp add: inspect_loop.simps)
  next
    case False
    then obtain n where n: "node_at h thisNode = Some n" and c: "i < length sgmts"
      and r: "inspect_loop h (next_n n) (Suc i)
                (sgmts[i := \<lparr>seg_size = node_size n, seg_allocated = allocated n\<rparr>]) = Some sg"
      using "1.prems"
      by (subst (asm) inspect_loop.simps) (auto split: option.splits if_splits)
    have "length sg = length (sgmts[i := \<lparr>seg_size = node_size n, seg_allocated = allocated n\<rparr>]) \<and>
        (\<forall>j<Suc i. sg ! j = sgmts[i := \<lparr>seg_size = node_size n, seg_allocated = allocated n\<rparr>] ! j)"
      using "1.IH"[OF False n c r] .
    then show ?thesis by simp
  qed
qed

text \<open>
  Whenever \<open>mem_inspect_pool\<close> returns, the first segment that it reports is arena
  record 0.
\<close>

lemma inspect_first:
  assumes "mem_inspect_pool pm = Some (sg, n)"
  shows "sg \<noteq> [] \<and>
         sg ! 0 = \<lparr>seg_size = node_size (node_heap pm ! 0),
                    seg_allocated = allocated (node_heap pm ! 0)\<rparr>"
proof -
  let ?z = "replicate (used_nodes pm) \<lparr>seg_size = 0, seg_allocated = 0\<rparr>"
  have l: "inspect_loop (arena pm) (Node (heap_at pm)) 0 ?z = Some sg"
    using assms by (simp add: mem_inspect_pool_def split: option.splits)
  then obtain r where r: "node_at (arena pm) (Node (heap_at pm)) = Some r" and c: "0 < length ?z"
    and t: "inspect_loop (arena pm) (next_n r) (Suc 0)
              (?z[0 := \<lparr>seg_size = node_size r, seg_allocated = allocated r\<rparr>]) = Some sg"
    by (subst (asm) inspect_loop.simps) (auto split: option.splits if_splits)
  have "r = node_heap pm ! 0"
    using r by (auto simp: node_at_def slot_def arena_def split: if_splits)
  moreover have "length sg = length (?z[0 := \<lparr>seg_size = node_size r, seg_allocated = allocated r\<rparr>]) \<and>
      (\<forall>j<Suc 0. sg ! j = ?z[0 := \<lparr>seg_size = node_size r, seg_allocated = allocated r\<rparr>] ! j)"
    using inspect_loop_keeps[OF t] .
  ultimately show ?thesis using c by auto
qed

text \<open>
  The managers that calls of the interface produce as long as no call grows the node
  heap: the manager that \<open>mem_pool_open\<close> sets up, for any region, size and policy,
  and the manager after a call of \<open>mem_new_alloc\<close> made with fewer than
  \<open>total_nodes\<close> records in use, or of \<open>mem_del_alloc\<close>, for any size and any
  handle.
\<close>

inductive reached_without_growth :: "pool_mgr_t \<Rightarrow> bool" where
  opened: "reached_without_growth (mem_pool_open_mgr region sz pol)"
| allocated:
    "reached_without_growth pm \<Longrightarrow> used_nodes pm < total_nodes pm \<Longrightarrow>
     mem_new_alloc e pm sz = Some (x, pm') \<Longrightarrow> reached_without_growth pm'"
| released:
    "reached_without_growth pm \<Longrightarrow> mem_del_alloc e pm h = Some (st, pm') \<Longrightarrow>
     reached_without_growth pm'"

lemma reached_head_ok: "reached_without_growth pm \<Longrightarrow> head_ok pm"
proof (induction rule: reached_without_growth.induct)
  case (opened region sz pol)
  show ?case by (rule head_ok_open)
next
  case (allocated pm e sz x pm')
  show ?case
    using postD[OF post_mem_new_alloc[OF allocated.IH allocated.hyps(2)] allocated.hyps(3)]
    by simp
next
  case (released pm e h st pm')
  show ?case
    using postD[OF post_mem_del_alloc[OF released.IH] released.hyps(2)] by simp
qed

text \<open>
  In these managers record 0 is the head of the segment list, whatever sizes are
  requested and whatever handles are released.
\<close>

lemma record_0_stays_head_without_growth:
  assumes "reached_without_growth pm"
  shows "heap_at pm = 0 \<and> node_heap pm \<noteq> [] \<and> used (node_heap pm ! 0) \<noteq> 0 \<and>
         prev_n (node_heap pm ! 0) = NULL \<and>
         node_mem (node_heap pm ! 0) = pool_mem (pool pm) \<and>
         (\<forall>k<total_nodes pm. next_n (node_heap pm ! k) \<noteq> Node 0)"
proof -
  have h: "head_ok pm" using reached_head_ok[OF assms] .
  have "next_n (node_heap pm ! k) \<noteq> Node 0" if "k < total_nodes pm" for k
    using h that by (simp add: head_ok_def total_nodes_def)
  then show ?thesis
    using h by (simp add: head_ok_def)
qed

text \<open>The pool of 1000 bytes after its first allocation is such a manager.\<close>

lemma after_allocs_1_reached:
  "reached_without_growth (after_allocs 1) \<and> prev_n (node_heap (after_allocs 1) ! 0) = NULL"
proof -
  have "calls zero_env (after_allocs 0) (allocs 0 1) = Some (after_allocs 1)"
    by code_simp
  then have "mem_new_alloc zero_env (after_allocs 0) 10 = Some (Node 0, after_allocs 1)"
    by (simp add: allocs_def split: option.splits prod.splits if_splits)
  moreover have "used_nodes (after_allocs 0) < total_nodes (after_allocs 0)"
    by (simp add: after_allocs_def total_nodes_def)
  moreover have "reached_without_growth (after_allocs 0)"
    using reached_without_growth.opened[of 5000 1000 FIRST_FIT]
    by (simp add: open_is_after_allocs_0)
  ultimately have r: "reached_without_growth (after_allocs 1)"
    using reached_without_growth.allocated by blast
  then show ?thesis
    using record_0_stays_head_without_growth[OF r] by simp
qed

subsection \<open>Growth of the node heap\<close>

text \<open>
  After 39 allocations of 10 bytes from the pool of 1000 bytes all 40 records of the
  arena are in use (\<open>after_allocs 39\<close>), so the growth check of the next
  \<open>mem_new_alloc\<close> doubles the arena. \<open>_mem_resize_node_heap\<close> stores the pointer
  that \<open>realloc\<close> returns and changes no other pointer, and it does not initialise the
  40 cells that \<open>realloc\<close> adds.

  In \<open>moved_env\<close> the array is moved by 100 records and every new cell holds a record
  with \<open>used = 1\<close>. In \<open>junk_env\<close> the array is moved in the same way; cell 40 holds
  what looks like a gap of 800 bytes whose \<open>next\<close> is the new address of
  \<open>node_heap[0]\<close>, the other new cells hold zero bytes. \<open>junk_env_in_place\<close> has the
  same contents for an array that is extended where it is.
\<close>

definition moved_env :: env where
  "moved_env =
     zero_env\<lparr>node_heap_to := (\<lambda>a. a + 100), fresh_node := (\<lambda>_. zero_node\<lparr>used := 1\<rparr>)\<rparr>"

definition junk_node :: "nat \<Rightarrow> node_t" where
  "junk_node a = \<lparr>alloc_record = \<lparr>rec_size = 800, rec_mem = 0\<rparr>, used = 1, allocated = 0,
     next_n = Node a, prev_n = NULL\<rparr>"

definition junk_env :: env where
  "junk_env =
     zero_env\<lparr>node_heap_to := (\<lambda>a. a + 100),
       fresh_node := (\<lambda>k. if k = 40 then junk_node 100 else zero_node)\<rparr>"

definition junk_env_in_place :: env where
  "junk_env_in_place =
     zero_env\<lparr>fresh_node := (\<lambda>k. if k = 40 then junk_node 0 else zero_node)\<rparr>"

text \<open>
  When \<open>realloc\<close> extends the array where it is and no record is unused, the call
  for 10 bytes returns the null pointer, \<open>num_allocs\<close> and \<open>alloc_size\<close> are
  increased, record 39 is allocated with 10 bytes, and its entry is gone from the gap
  index.
\<close>

lemma alloc_fails_after_growth_in_place:
  "map_option (\<lambda>r. (fst r, heap_at (snd r), num_allocs (pool (snd r)), alloc_size (pool (snd r)),
                     num_gaps (pool (snd r)), gap_ix (snd r) ! 0, node_heap (snd r) ! 39))
     (mem_new_alloc (moved_env\<lparr>node_heap_to := (\<lambda>a. a)\<rparr>) (after_allocs 39) 10)
     = Some (NULL, 0, 40, 400, 0, \<lparr>gap_size = 0, gap_node = NULL\<rparr>,
             \<lparr>alloc_record = \<lparr>rec_size = 10, rec_mem = 5390\<rparr>, used = 1, allocated = 1,
                next_n = NULL, prev_n = Node 38\<rparr>)"
  by code_simp

text \<open>
  C9. When \<open>mem_new_alloc\<close> has chosen a candidate gap that is larger than the
  request and finds no unused record for the remainder, it is to return the null pointer
  with \<open>num_allocs\<close> incremented, \<open>alloc_size\<close> increased by the request, the
  candidate marked allocated and the candidate removed from the gap index. In the pool
  after 39 allocations (\<open>num_allocs = 39\<close>, \<open>alloc_size = 390\<close>, one gap of 610 bytes
  in record 39, entered in the gap index with its address \<open>Node 39\<close>) and with
  \<open>moved_env\<close>, the growth check moves the arena to address 100. The request of 10
  bytes selects record 39, now at address 139, and no record is unused. The call returns
  the null pointer; \<open>num_allocs\<close> is 40, \<open>alloc_size\<close> is 400 and record 39 is
  allocated with 10 bytes. The gap index, however, still holds the entry with the old
  address of record 39, and \<open>num_gaps\<close> is still 1: the candidate is not removed.
\<close>

theorem C9_candidate_stays_in_gap_ix:
  "calls zero_env (mem_pool_open_mgr 5000 1000 FIRST_FIT) (allocs 0 39) = Some (after_allocs 39) \<and>
   (num_allocs (pool (after_allocs 39)), alloc_size (pool (after_allocs 39)),
      num_gaps (pool (after_allocs 39)), gap_ix (after_allocs 39) ! 0,
      node_heap (after_allocs 39) ! 39)
     = (39, 390, 1, \<lparr>gap_size = 610, gap_node = Node 39\<rparr>,
        \<lparr>alloc_record = \<lparr>rec_size = 610, rec_mem = 5390\<rparr>, used = 1, allocated = 0,
           next_n = NULL, prev_n = Node 38\<rparr>) \<and>
   map_option (\<lambda>pm1. (heap_at pm1, total_nodes pm1, select_node pm1 10, find_unused (arena pm1) 0))
     (mem_resize_node_heap moved_env (after_allocs 39))
     = Some (100, 80, Some (Node 139), NULL) \<and>
   map_option (\<lambda>r. (fst r, heap_at (snd r), num_allocs (pool (snd r)), alloc_size (pool (snd r)),
                     num_gaps (pool (snd r)), gap_ix (snd r) ! 0, node_heap (snd r) ! 39))
     (mem_new_alloc moved_env (after_allocs 39) 10)
     = Some (NULL, 100, 40, 400, 1, \<lparr>gap_size = 610, gap_node = Node 39\<rparr>,
             \<lparr>alloc_record = \<lparr>rec_size = 10, rec_mem = 5390\<rparr>, used = 1, allocated = 1,
                next_n = NULL, prev_n = Node 38\<rparr>)"
proof -
  have "(num_allocs (pool (after_allocs 39)), alloc_size (pool (after_allocs 39)),
      num_gaps (pool (after_allocs 39)), gap_ix (after_allocs 39) ! 0,
      node_heap (after_allocs 39) ! 39)
     = (39, 390, 1, \<lparr>gap_size = 610, gap_node = Node 39\<rparr>,
        \<lparr>alloc_record = \<lparr>rec_size = 610, rec_mem = 5390\<rparr>, used = 1, allocated = 0,
           next_n = NULL, prev_n = Node 38\<rparr>)"
    by code_simp
  moreover have "map_option
      (\<lambda>pm1. (heap_at pm1, total_nodes pm1, select_node pm1 10, find_unused (arena pm1) 0))
      (mem_resize_node_heap moved_env (after_allocs 39))
     = Some (100, 80, Some (Node 139), NULL)"
    by code_simp
  moreover have "map_option
      (\<lambda>r. (fst r, heap_at (snd r), num_allocs (pool (snd r)), alloc_size (pool (snd r)),
             num_gaps (pool (snd r)), gap_ix (snd r) ! 0, node_heap (snd r) ! 39))
      (mem_new_alloc moved_env (after_allocs 39) 10)
     = Some (NULL, 100, 40, 400, 1, \<lparr>gap_size = 610, gap_node = Node 39\<rparr>,
             \<lparr>alloc_record = \<lparr>rec_size = 10, rec_mem = 5390\<rparr>, used = 1, allocated = 1,
                next_n = NULL, prev_n = Node 38\<rparr>)"
    by code_simp
  ultimately show ?thesis
    using reach_after_allocs_39 by simp
qed

text \<open>
  C10. Arena record 0 is to stay the head of the segment list in every state that calls
  of the interface reach, and \<open>mem_inspect_pool\<close> starts its walk there. As long as
  no call grows the node heap it does (\<open>record_0_stays_head_without_growth\<close>). In the
  pool after 39 allocations record 0 has no predecessor, and the list from record 0 has the 40
  segments. With \<open>junk_env\<close> the next call, \<open>mem_new_alloc\<close> for 700 bytes, grows
  and moves the arena, finds no gap of 700 bytes among the records 0 to 39 and takes
  cell 40, which the program never wrote, as its candidate. It returns the address of
  cell 40, puts the remainder into cell 41 and links cell 41 in front of the record that
  the \<open>next\<close> of cell 40 points to, which is record 0: afterwards \<open>prev\<close> of record 0 is
  the address of record 41, and \<open>next\<close> of record 41 is the address of record 0. The
  \<open>next\<close> of record 0 is still the address that record 1 had before the arena moved,
  so the walk of \<open>mem_inspect_pool\<close> from record 0 leaves the array and has no result.
  With \<open>junk_env_in_place\<close> the arena stays where it is and record 0 gets the same
  predecessor; \<open>mem_inspect_pool\<close> then reports that there are 41 segments.
\<close>

theorem C10_record_0_gets_predecessor:
  "calls zero_env (mem_pool_open_mgr 5000 1000 FIRST_FIT) (allocs 0 39) = Some (after_allocs 39) \<and>
   (prev_n (node_heap (after_allocs 39) ! 0), segment_list (after_allocs 39),
      map_option snd (mem_inspect_pool (after_allocs 39)))
     = (NULL, Some [0..<40], Some 40) \<and>
   map_option (\<lambda>r. (fst r, heap_at (snd r), prev_n (node_heap (snd r) ! 0),
                     next_n (node_heap (snd r) ! 41), next_n (node_heap (snd r) ! 0),
                     segment_list (snd r), mem_inspect_pool (snd r)))
     (mem_new_alloc junk_env (after_allocs 39) 700)
     = Some (Node 140, 100, Node 141, Node 100, Node 1, None, None) \<and>
   map_option (\<lambda>r. (fst r, heap_at (snd r), prev_n (node_heap (snd r) ! 0),
                     next_n (node_heap (snd r) ! 41), next_n (node_heap (snd r) ! 0),
                     segment_list (snd r), map_option snd (mem_inspect_pool (snd r))))
     (mem_new_alloc junk_env_in_place (after_allocs 39) 700)
     = Some (Node 40, 0, Node 41, Node 0, Node 1, Some [0..<40], Some 41)"
proof -
  have "(prev_n (node_heap (after_allocs 39) ! 0), segment_list (after_allocs 39),
      map_option snd (mem_inspect_pool (after_allocs 39)))
     = (NULL, Some [0..<40], Some 40)"
    by code_simp
  moreover have "map_option
      (\<lambda>r. (fst r, heap_at (snd r), prev_n (node_heap (snd r) ! 0),
             next_n (node_heap (snd r) ! 41), next_n (node_heap (snd r) ! 0),
             segment_list (snd r), mem_inspect_pool (snd r)))
      (mem_new_alloc junk_env (after_allocs 39) 700)
     = Some (Node 140, 100, Node 141, Node 100, Node 1, None, None)"
    by code_simp
  moreover have "map_option
      (\<lambda>r. (fst r, heap_at (snd r), prev_n (node_heap (snd r) ! 0),
             next_n (node_heap (snd r) ! 41), next_n (node_heap (snd r) ! 0),
             segment_list (snd r), map_option snd (mem_inspect_pool (snd r))))
      (mem_new_alloc junk_env_in_place (after_allocs 39) 700)
     = Some (Node 40, 0, Node 41, Node 0, Node 1, Some [0..<40], Some 41)"
    by code_simp
  ultimately show ?thesis
    using reach_after_allocs_39 by simp
qed

end
